theory Spec2Isabelle
  imports Complex_Main
begin

section \<open>Utility functions of the backend server\<close>

subsection \<open>Text encodings used by the QR signature\<close>

text \<open>
  Strings are byte strings (the UTF-8 bytes that \<^verbatim>\<open>Buffer.from(str)\<close> produces).
  \<^verbatim>\<open>buf.toString('base64')\<close> is the standard base64 encoding with \<^verbatim>\<open>=\<close> padding.
\<close>

definition b64chars :: string where
  "b64chars = ''ABCDEFGHIJKLMNOPQRSTUVWXYZabcdefghijklmnopqrstuvwxyz0123456789+/''"

definition b64 :: "nat \<Rightarrow> char" where
  "b64 n = b64chars ! n"

fun base64 :: "string \<Rightarrow> string" where
  "base64 (a # b # c # rest) =
     [b64 (of_char a div 4),
      b64 ((of_char a mod 4) * 16 + of_char b div 16),
      b64 ((of_char b mod 16) * 4 + of_char c div 64),
      b64 (of_char c mod 64)] @ base64 rest"
| "base64 [a, b] =
     [b64 (of_char a div 4),
      b64 ((of_char a mod 4) * 16 + of_char b div 16),
      b64 ((of_char b mod 16) * 4),
      CHR ''='']"
| "base64 [a] =
     [b64 (of_char a div 4),
      b64 ((of_char a mod 4) * 16),
      CHR ''='', CHR ''='']"
| "base64 [] = []"

text \<open>
  A template literal \<^verbatim>\<open>${n}\<close> renders an integer number in decimal, with a leading
  minus sign when negative (integers below \<open>10^21\<close> in magnitude, which covers every
  millisecond timestamp).
\<close>

definition digit_char :: "nat \<Rightarrow> char" where
  "digit_char d = ''0123456789'' ! d"

fun digits :: "nat \<Rightarrow> string" where
  "digits n = (if n < 10 then [digit_char n] else digits (n div 10) @ [digit_char (n mod 10)])"

declare digits.simps [simp del]

definition show_int :: "int \<Rightarrow> string" where
  "show_int i = (if i < 0 then CHR ''-'' # digits (nat (- i)) else digits (nat i))"

subsection \<open>QR payload\<close>

text \<open>The geofence snapshot \<^verbatim>\<open>{ latitude, longitude, radius }\<close> carried by a payload.\<close>

record location =
  latitude :: real
  longitude :: real
  radius :: "real option"

text \<open>
  The object returned by \<^verbatim>\<open>generateQRPayload\<close> and read back from \<^verbatim>\<open>JSON.parse(qrData)\<close>.
  Timestamps are milliseconds since the epoch.
\<close>

record qr_payload =
  sessionId :: string
  courseId :: string
  facultyId :: string
  timestamp :: int
  expiresAt :: int
  location :: "location option"
  signature :: string

text \<open>
  \<^verbatim>\<open>process.env.QR_SECRET || 'fallback-secret'\<close>: the environment variable may be unset
  (\<open>None\<close>); an unset or empty value is falsy and selects the fallback.
\<close>

definition qr_secret :: "string option \<Rightarrow> string" where
  "qr_secret env = (case env of None \<Rightarrow> ''fallback-secret''
                    | Some s \<Rightarrow> if s = [] then ''fallback-secret'' else s)"

text \<open>The signed text \<^verbatim>\<open>`${sessionId}-${timestamp}-${secret}`\<close>, base64-encoded.\<close>

definition sign :: "string option \<Rightarrow> string \<Rightarrow> int \<Rightarrow> string" where
  "sign env sid ts = base64 (sid @ ''-'' @ show_int ts @ ''-'' @ qr_secret env)"

text \<open>
  Session ids are the ids Firestore's \<^verbatim>\<open>add()\<close> assigns (\<^verbatim>\<open>sessionRef.id\<close> in
  \<^verbatim>\<open>POST /api/faculty/generate-qr\<close>): 20 characters, each a letter or a digit.
\<close>

definition autoIdChars :: string where
  "autoIdChars = ''ABCDEFGHIJKLMNOPQRSTUVWXYZabcdefghijklmnopqrstuvwxyz0123456789''"

definition autoId :: "string \<Rightarrow> bool" where
  "autoId s \<longleftrightarrow> length s = 20 \<and> list_all (\<lambda>c. c \<in> set autoIdChars) s"

text \<open>
  \<^verbatim>\<open>generateQRPayload(sessionId, courseId, facultyId, location, expiresIn)\<close>; the
  reading of the clock \<^verbatim>\<open>Date.now()\<close> is the parameter \<open>now\<close>.
\<close>

definition generateQRPayload ::
  "string option \<Rightarrow> int \<Rightarrow> string \<Rightarrow> string \<Rightarrow> string \<Rightarrow> location option \<Rightarrow> int \<Rightarrow> qr_payload" where
  "generateQRPayload env now sid cid fid loc expiresIn =
     \<lparr> sessionId = sid, courseId = cid, facultyId = fid,
       timestamp = now, expiresAt = now + expiresIn,
       location = loc,
       signature = sign env sid now \<rparr>"

definition verifyQRSignature :: "string option \<Rightarrow> qr_payload \<Rightarrow> bool" where
  "verifyQRSignature env payload =
     (let expectedSignature = sign env (sessionId payload) (timestamp payload)
      in signature payload = expectedSignature)"

subsection \<open>Distance between two coordinates\<close>

text \<open>
  Numbers are modelled as real numbers: \<^verbatim>\<open>Math.atan2\<close>, \<^verbatim>\<open>Math.round\<close> and the
  Haversine formula are written over \<open>real\<close>, without the rounding of doubles.
\<close>

definition atan2 :: "real \<Rightarrow> real \<Rightarrow> real" where
  "atan2 y x =
     (if 0 < x then arctan (y / x)
      else if x < 0 then (if 0 \<le> y then arctan (y / x) + pi else arctan (y / x) - pi)
      else if 0 < y then pi / 2
      else if y < 0 then - (pi / 2)
      else 0)"

definition math_round :: "real \<Rightarrow> int" where
  "math_round x = \<lfloor>x + 1 / 2\<rfloor>"

definition calculateDistance :: "real \<Rightarrow> real \<Rightarrow> real \<Rightarrow> real \<Rightarrow> real" where
  "calculateDistance lat1 lon1 lat2 lon2 =
     (let R = 6371000;
          phi1 = lat1 * pi / 180;
          phi2 = lat2 * pi / 180;
          dphi = (lat2 - lat1) * pi / 180;
          dlam = (lon2 - lon1) * pi / 180;
          a = sin (dphi / 2) * sin (dphi / 2) +
              cos phi1 * cos phi2 * sin (dlam / 2) * sin (dlam / 2);
          c = 2 * atan2 (sqrt a) (sqrt (1 - a))
      in R * c)"

section \<open>Persisted documents\<close>

text \<open>
  The Firestore collections the routes read and write. A collection addressed by
  document id (\<^verbatim>\<open>.doc(id)\<close>) is a map from ids; a collection that is only queried and
  appended to is a list in which a document's id is its position (attendance documents
  are never deleted). Server timestamps are the clock reading passed to each route.
\<close>

record session_doc =
  s_courseId :: string
  s_courseName :: "string option"
  s_facultyId :: string
  isActive :: bool
  presentCount :: int
  endedAt :: "int option"

record enrollment_doc =
  e_studentId :: string
  e_courseId :: string
  e_isActive :: bool

datatype status = Present | Absent

datatype marker = ByStudent | ByFaculty

record attendance_doc =
  a_sessionId :: string
  a_courseId :: string
  a_studentId :: string
  status :: status
  markedAt :: int
  markedBy :: marker
  locationVerified :: bool
  studentLatitude :: "real option"
  studentLongitude :: "real option"
  distanceFromClass :: "int option"
  accuracy :: "real option"
  qrTimestamp :: "int option"
  deviceId :: "string option"
  manual :: bool
  updatedAt :: "int option"

record course_doc =
  c_code :: string
  c_name :: string
  c_facultyId :: string
  c_isActive :: bool
  joinCode :: "string option"

record db =
  sessions :: "string \<rightharpoonup> session_doc"
  enrollments :: "enrollment_doc list"
  attendance :: "attendance_doc list"
  activeQRs :: "string \<rightharpoonup> qr_payload"
  students :: "string \<rightharpoonup> string option"
  courses :: "course_doc list"

text \<open>
  \<^verbatim>\<open>db.collection('sessions').doc(id).update(...)\<close>: Firestore rejects an update of a
  document that does not exist (\<open>None\<close>); the route's \<^verbatim>\<open>catch\<close> then answers 500.
\<close>

definition updateSession :: "string \<Rightarrow> (session_doc \<Rightarrow> session_doc) \<Rightarrow> db \<Rightarrow> db option" where
  "updateSession sid f d =
     (case sessions d sid of
        None \<Rightarrow> None
      | Some s \<Rightarrow> Some (d\<lparr>sessions := (sessions d)(sid \<mapsto> f s)\<rparr>))"

text \<open>The error kinds of the routes (HTTP status and message in the source).\<close>

datatype error =
    InvalidFormat          \<comment> \<open>400 Invalid QR code format\<close>
  | InvalidSignature       \<comment> \<open>400 Invalid QR signature\<close>
  | Expired                \<comment> \<open>400 QR code has expired\<close>
  | NotFound               \<comment> \<open>404 Session not found\<close>
  | Forbidden              \<comment> \<open>403 not enrolled / not authorized\<close>
  | AlreadyMarked          \<comment> \<open>400 Attendance already marked for this session\<close>
  | OutOfRange int real    \<comment> \<open>400 too far: \<^verbatim>\<open>distance\<close>, \<^verbatim>\<open>maxDistance\<close>\<close>
  | ValidationError        \<comment> \<open>400 presentStudentIds must be an array\<close>
  | Internal               \<comment> \<open>500 from the route's \<^verbatim>\<open>catch\<close>\<close>

section \<open>Scan QR and mark attendance\<close>

text \<open>
  The body of \<^verbatim>\<open>POST /api/student/scan-qr\<close>. \<open>qrData\<close> holds the outcome of
  \<^verbatim>\<open>JSON.parse(qrData)\<close>: \<open>None\<close> when it throws, otherwise the payload object.
  Coordinates are optional numbers; \<open>req_deviceId\<close> is the \<^verbatim>\<open>x-device-id\<close> header.
\<close>

record scan_request =
  qrData :: "qr_payload option"
  req_latitude :: "real option"
  req_longitude :: "real option"
  req_accuracy :: "real option"
  req_deviceId :: "string option"

record scan_ok =
  att_id :: nat
  att :: attendance_doc
  studentName :: "string option"
  courseName :: string

text \<open>JavaScript truthiness of an optional number: absent and \<open>0\<close> are falsy.\<close>

definition truthy :: "real option \<Rightarrow> bool" where
  "truthy x = (case x of None \<Rightarrow> False | Some v \<Rightarrow> v \<noteq> 0)"

text \<open>\<^verbatim>\<open>x || null\<close>\<close>

definition or_null :: "real option \<Rightarrow> real option" where
  "or_null x = (if truthy x then x else None)"

text \<open>\<^verbatim>\<open>payload.location.radius || 50\<close>\<close>

definition maxDistance :: "location \<Rightarrow> real" where
  "maxDistance l = (if truthy (radius l) then the (radius l) else 50)"

text \<open>
  "Verify geolocation if required": the result is \<open>(locationVerified, distanceFromClass)\<close>,
  or the too-far response.
\<close>

definition verifyGeolocation ::
  "location option \<Rightarrow> real option \<Rightarrow> real option \<Rightarrow> error + (bool \<times> real)" where
  "verifyGeolocation loc lat lon =
     (case loc of
        None \<Rightarrow> Inr (True, 0)
      | Some l \<Rightarrow>
          if truthy lat \<and> truthy lon then
            (let distanceFromClass = calculateDistance (the lat) (the lon) (latitude l) (longitude l);
                 locationVerified = (distanceFromClass \<le> maxDistance l)
             in if \<not> locationVerified
                then Inl (OutOfRange (math_round distanceFromClass) (maxDistance l))
                else Inr (locationVerified, distanceFromClass))
          else Inr (True, 0))"

definition enrollmentSnapshot :: "db \<Rightarrow> string \<Rightarrow> string \<Rightarrow> enrollment_doc list" where
  "enrollmentSnapshot d userId cid =
     take 1 (filter (\<lambda>e. e_studentId e = userId \<and> e_courseId e = cid \<and> e_isActive e = True)
               (enrollments d))"

definition existingAttendance :: "db \<Rightarrow> string \<Rightarrow> string \<Rightarrow> attendance_doc list" where
  "existingAttendance d sid userId =
     take 1 (filter (\<lambda>a. a_sessionId a = sid \<and> a_studentId a = userId) (attendance d))"

definition attendanceData ::
  "int \<Rightarrow> string \<Rightarrow> scan_request \<Rightarrow> qr_payload \<Rightarrow> bool \<Rightarrow> real \<Rightarrow> attendance_doc" where
  "attendanceData now userId req payload verified distance =
     \<lparr> a_sessionId = sessionId payload,
       a_courseId = courseId payload,
       a_studentId = userId,
       status = Present,
       markedAt = now,
       markedBy = ByStudent,
       locationVerified = verified,
       studentLatitude = or_null (req_latitude req),
       studentLongitude = or_null (req_longitude req),
       distanceFromClass = Some (math_round distance),
       accuracy = or_null (req_accuracy req),
       qrTimestamp = Some (timestamp payload),
       deviceId = Some (case req_deviceId req of None \<Rightarrow> ''unknown''
                        | Some h \<Rightarrow> if h = [] then ''unknown'' else h),
       manual = False,
       updatedAt = None \<rparr>"

definition recordScan ::
  "string option \<Rightarrow> int \<Rightarrow> string \<Rightarrow> scan_request \<Rightarrow> db \<Rightarrow> (error + scan_ok) \<times> db" where
  "recordScan env now userId req d =
     (case qrData req of
        None \<Rightarrow> (Inl InvalidFormat, d)
      | Some payload \<Rightarrow>
          if \<not> verifyQRSignature env payload then (Inl InvalidSignature, d)
          else if now > expiresAt payload then (Inl Expired, d)
          else
            (case sessions d (sessionId payload) of
               None \<Rightarrow> (Inl NotFound, d)
             | Some session \<Rightarrow>
                 if enrollmentSnapshot d userId (courseId payload) = [] then (Inl Forbidden, d)
                 else if existingAttendance d (sessionId payload) userId \<noteq> []
                   then (Inl AlreadyMarked, d)
                 else
                   (case verifyGeolocation (location payload) (req_latitude req) (req_longitude req) of
                      Inl e \<Rightarrow> (Inl e, d)
                    | Inr (verified, distance) \<Rightarrow>
                        (let doc = attendanceData now userId req payload verified distance;
                             d1 = d\<lparr>attendance := attendance d @ [doc]\<rparr>
                         in case updateSession (sessionId payload)
                                   (\<lambda>s. s\<lparr>presentCount := presentCount s + 1\<rparr>) d1 of
                              None \<Rightarrow> (Inl Internal, d1)
                            | Some d2 \<Rightarrow>
                                (Inr \<lparr> att_id = length (attendance d),
                                       att = doc,
                                       studentName =
                                         (case students d2 userId of
                                            None \<Rightarrow> Some ''Unknown'' | Some n \<Rightarrow> n),
                                       courseName =
                                         (case s_courseName session of
                                            None \<Rightarrow> ''Unknown Course''
                                          | Some n \<Rightarrow> if n = [] then ''Unknown Course'' else n) \<rparr>,
                                 d2)))))"

section \<open>Stop session\<close>

text \<open>
  The body of \<^verbatim>\<open>POST /api/faculty/session/:sessionId/stop\<close>. \<open>caller\<close> is
  \<^verbatim>\<open>req.user.uid\<close>, which the route never reads.
\<close>

definition stopSession :: "int \<Rightarrow> string \<Rightarrow> string \<Rightarrow> db \<Rightarrow> (error + unit) \<times> db" where
  "stopSession now caller sid d =
     (case updateSession sid (\<lambda>s. s\<lparr>isActive := False, endedAt := Some now\<rparr>) d of
        None \<Rightarrow> (Inl Internal, d)
      | Some d1 \<Rightarrow> (Inr (), d1\<lparr>activeQRs := (activeQRs d1)(sid := None)\<rparr>))"

section \<open>Manual attendance marking\<close>

text \<open>\<^verbatim>\<open>new Set(xs)\<close>: each element is added unless already present; insertion order.\<close>

definition set_add :: "'a \<Rightarrow> 'a list \<Rightarrow> 'a list" where
  "set_add x acc = (if x \<in> set acc then acc else acc @ [x])"

definition new_Set :: "'a list \<Rightarrow> 'a list" where
  "new_Set xs = fold set_add xs []"

text \<open>The query snapshot of a session: its documents with their ids, in collection order.\<close>

definition currentSnapshot :: "db \<Rightarrow> string \<Rightarrow> (nat \<times> attendance_doc) list" where
  "currentSnapshot d sid = filter (\<lambda>(i, a). a_sessionId a = sid) (enumerate 0 (attendance d))"

definition currentPresentIds :: "(nat \<times> attendance_doc) list \<Rightarrow> string list" where
  "currentPresentIds snap =
     new_Set (map (\<lambda>(i, a). a_studentId a) (filter (\<lambda>(i, a). status a = Present) snap))"

definition manualDoc :: "int \<Rightarrow> string \<Rightarrow> session_doc \<Rightarrow> string \<Rightarrow> attendance_doc" where
  "manualDoc now sid session studentId =
     \<lparr> a_sessionId = sid,
       a_courseId = s_courseId session,
       a_studentId = studentId,
       status = Present,
       markedAt = now,
       markedBy = ByFaculty,
       locationVerified = False,
       studentLatitude = None,
       studentLongitude = None,
       distanceFromClass = None,
       accuracy = None,
       qrTimestamp = None,
       deviceId = None,
       manual = True,
       updatedAt = None \<rparr>"

definition addManual :: "int \<Rightarrow> string \<Rightarrow> session_doc \<Rightarrow> string \<Rightarrow> db \<Rightarrow> db" where
  "addManual now sid session studentId d =
     d\<lparr>attendance := attendance d @ [manualDoc now sid session studentId]\<rparr>"

definition markAbsentDoc :: "int \<Rightarrow> attendance_doc \<Rightarrow> attendance_doc" where
  "markAbsentDoc now a = a\<lparr>status := Absent, updatedAt := Some now, markedBy := ByFaculty, manual := True\<rparr>"

text \<open>
  One removal: the first document of the snapshot taken before the writes that belongs to
  the student and is \<open>present\<close> is patched, by id, in the collection.
\<close>

definition markAbsent :: "int \<Rightarrow> (nat \<times> attendance_doc) list \<Rightarrow> string \<Rightarrow> db \<Rightarrow> db" where
  "markAbsent now snap studentId d =
     (case find (\<lambda>(i, a). a_studentId a = studentId \<and> status a = Present) snap of
        None \<Rightarrow> d
      | Some (i, _) \<Rightarrow>
          d\<lparr>attendance := (attendance d)[i := markAbsentDoc now (attendance d ! i)]\<rparr>)"

text \<open>
  The body of \<^verbatim>\<open>POST /api/faculty/session/:sessionId/manual-attendance\<close>;
  \<open>presentStudentIds\<close> is \<open>None\<close> when the body field is not an array. The result is
  \<open>(added, removed)\<close>.
\<close>

definition applyManualAttendance ::
  "int \<Rightarrow> string \<Rightarrow> string \<Rightarrow> string list option \<Rightarrow> db \<Rightarrow> (error + nat \<times> nat) \<times> db" where
  "applyManualAttendance now caller sid presentStudentIds d =
     (case presentStudentIds of
        None \<Rightarrow> (Inl ValidationError, d)
      | Some ids \<Rightarrow>
          (case sessions d sid of
             None \<Rightarrow> (Inl NotFound, d)
           | Some session \<Rightarrow>
               if s_facultyId session \<noteq> caller then (Inl Forbidden, d)
               else
                 (let snap = currentSnapshot d sid;
                      cur = currentPresentIds snap;
                      newPresentSet = new_Set ids;
                      toAdd = filter (\<lambda>i. i \<notin> set cur) ids;
                      toRemove = filter (\<lambda>i. i \<notin> set newPresentSet) cur;
                      d1 = fold (addManual now sid session) toAdd d;
                      d2 = fold (markAbsent now snap) toRemove d1;
                      delta = int (length toAdd) - int (length toRemove)
                  in if delta \<noteq> 0 then
                       (case updateSession sid (\<lambda>s. s\<lparr>presentCount := presentCount s + delta\<rparr>) d2 of
                          None \<Rightarrow> (Inl Internal, d2)
                        | Some d3 \<Rightarrow> (Inr (length toAdd, length toRemove), d3))
                     else (Inr (length toAdd, length toRemove), d2))))"

text \<open>
  The notions the reconciliation is measured against: a document that is currently
  \<open>present\<close> in a session; the data-model invariant that a session holds at most one
  such document per student; and the expected effect on an existing document, patched to
  \<open>absent\<close> when it is present and its student is not requested, untouched otherwise.
\<close>

definition presentIn :: "string \<Rightarrow> attendance_doc \<Rightarrow> bool" where
  "presentIn sid a \<longleftrightarrow> a_sessionId a = sid \<and> status a = Present"

definition atMostOnePresent :: "db \<Rightarrow> string \<Rightarrow> bool" where
  "atMostOnePresent d sid \<longleftrightarrow>
     distinct (map a_studentId (filter (presentIn sid) (attendance d)))"

definition reconciled :: "int \<Rightarrow> string \<Rightarrow> string list \<Rightarrow> attendance_doc \<Rightarrow> attendance_doc" where
  "reconciled now sid ids a =
     (if presentIn sid a \<and> a_studentId a \<notin> set ids then markAbsentDoc now a else a)"

section \<open>Join codes\<close>

text \<open>
  \<^verbatim>\<open>generateJoinCode\<close> of \<^verbatim>\<open>POST /api/faculty/classes/full\<close>. The calls of
  \<^verbatim>\<open>Math.random()\<close> are a sequence \<open>rnd\<close>, read from position \<open>k\<close> on.
\<close>

definition chars :: string where
  "chars = ''ABCDEFGHJKLMNPQRSTUVWXYZ23456789''"

text \<open>\<^verbatim>\<open>s.charAt(i)\<close> is the empty string out of range.\<close>

definition charAt :: "string \<Rightarrow> int \<Rightarrow> string" where
  "charAt s i = (if 0 \<le> i \<and> i < int (length s) then [s ! nat i] else [])"

fun joinCodeLoop :: "(nat \<Rightarrow> real) \<Rightarrow> nat \<Rightarrow> nat \<Rightarrow> string \<Rightarrow> string" where
  "joinCodeLoop rnd k 0 code = code"
| "joinCodeLoop rnd k (Suc n) code =
     joinCodeLoop rnd (Suc k) n (code @ charAt chars \<lfloor>rnd k * real (length chars)\<rfloor>)"

definition generateJoinCode :: "(nat \<Rightarrow> real) \<Rightarrow> nat \<Rightarrow> string" where
  "generateJoinCode rnd k = joinCodeLoop rnd k 6 []"

definition existingJoinCode :: "course_doc list \<Rightarrow> string \<Rightarrow> course_doc list" where
  "existingJoinCode cs code = take 1 (filter (\<lambda>c. joinCode c = Some code) cs)"

text \<open>
  "Ensure uniqueness": the loop regenerates while a course with the code exists. It need
  not end; \<open>None\<close> is the run that never leaves the loop.
\<close>

partial_function (option) uniqueJoinCode :: "(nat \<Rightarrow> real) \<Rightarrow> nat \<Rightarrow> course_doc list \<Rightarrow> string option" where
  "uniqueJoinCode rnd k cs =
     (let code = generateJoinCode rnd k
      in if existingJoinCode cs code \<noteq> [] then uniqueJoinCode rnd (k + 6) cs else Some code)"

section \<open>Example data\<close>

text \<open>
  A session of course \<open>c1\<close> owned by faculty \<open>f1\<close>, with a geofence of 50 metres around
  (12, 77); its token issued at time \<open>1000\<close> with the default validity of 300 seconds;
  and one enrolled student \<open>u1\<close>, who scans from the centre of the geofence.
\<close>

definition exampleSid :: string where
  "exampleSid = ''AbCdEfGhIjKlMnOpQrSt''"

definition exampleSession :: session_doc where
  "exampleSession = \<lparr> s_courseId = ''c1'', s_courseName = Some ''Algorithms'', s_facultyId = ''f1'',
       isActive = True, presentCount = 0, endedAt = None \<rparr>"

definition exampleFence :: location where
  "exampleFence = \<lparr>latitude = 12, longitude = 77, radius = Some 50\<rparr>"

definition exampleToken :: "location option \<Rightarrow> qr_payload" where
  "exampleToken loc = generateQRPayload None 1000 exampleSid ''c1'' ''f1'' loc 300000"

definition exampleDb :: "attendance_doc list \<Rightarrow> db" where
  "exampleDb atts =
     \<lparr> sessions = [exampleSid \<mapsto> exampleSession],
       enrollments = [\<lparr> e_studentId = ''u1'', e_courseId = ''c1'', e_isActive = True \<rparr>],
       attendance = atts,
       activeQRs = [exampleSid \<mapsto> exampleToken (Some exampleFence)],
       students = [''u1'' \<mapsto> Some ''Asha''],
       courses = [] \<rparr>"

definition exampleRequest :: "qr_payload \<Rightarrow> real option \<Rightarrow> real option \<Rightarrow> scan_request" where
  "exampleRequest p la lo =
     \<lparr> qrData = Some p, req_latitude = la, req_longitude = lo,
       req_accuracy = None, req_deviceId = None \<rparr>"

definition exampleScan :: scan_request where
  "exampleScan = exampleRequest (exampleToken (Some exampleFence)) (Some 12) (Some 77)"

text \<open>A record of \<open>u1\<close> that the faculty added by hand and later marked absent.\<close>

definition exampleAbsent :: attendance_doc where
  "exampleAbsent = markAbsentDoc 1500 (manualDoc 1200 exampleSid exampleSession ''u1'')"

text \<open>
  A course whose join code is \<open>AAAAAA\<close>, and a random source whose first six draws give
  that very code and whose later draws give \<open>SSSSSS\<close>.
\<close>

definition exampleCourse :: course_doc where
  "exampleCourse = \<lparr> c_code = ''CS101'', c_name = ''Algorithms'', c_facultyId = ''f1'',
       c_isActive = True, joinCode = Some ''AAAAAA'' \<rparr>"

definition exampleRandom :: "nat \<Rightarrow> real" where
  "exampleRandom i = (if i < 6 then 0 else 1 / 2)"

section \<open>Properties of the encodings\<close>

subsection \<open>Base64 is injective\<close>

lemma b64chars_distinct: "distinct b64chars"
  by (simp add: b64chars_def)

lemma b64chars_length: "length b64chars = 64"
  by (simp add: b64chars_def)

lemma b64_inj: "i < 64 \<Longrightarrow> j < 64 \<Longrightarrow> b64 i = b64 j \<Longrightarrow> i = j"
  unfolding b64_def using b64chars_distinct b64chars_length
  by (simp add: nth_eq_iff_index_eq)

lemma b64_not_pad: "i < 64 \<Longrightarrow> b64 i \<noteq> CHR ''=''"
proof -
  assume "i < 64"
  then have "b64chars ! i \<in> set b64chars" by (simp add: b64chars_length)
  moreover have "CHR ''='' \<notin> set b64chars" by (simp add: b64chars_def)
  ultimately show ?thesis unfolding b64_def by metis
qed

lemma sextet_bounds:
  fixes x y :: nat
  assumes "x < 256" "y < 256"
  shows "x div 4 < 64" "(x mod 4) * 16 + y div 16 < 64" "(x mod 16) * 4 + y div 64 < 64"
    "x mod 64 < 64" "(x mod 4) * 16 < 64" "(x mod 16) * 4 < 64"
  using assms by linarith+

lemma sextets1:
  fixes x x' :: nat
  assumes "x < 256" "x' < 256"
    and "x div 4 = x' div 4"
    and "(x mod 4) * 16 = (x' mod 4) * 16"
  shows "x = x'"
proof -
  have "x mod 4 = x' mod 4" using assms(4) by simp
  then show ?thesis using assms(3) by (metis div_mult_mod_eq)
qed

lemma sextets2:
  fixes x y x' y' :: nat
  assumes "x < 256" "y < 256" "x' < 256" "y' < 256"
    and "x div 4 = x' div 4"
    and "(x mod 4) * 16 + y div 16 = (x' mod 4) * 16 + y' div 16"
    and "(y mod 16) * 4 = (y' mod 16) * 4"
  shows "x = x' \<and> y = y'"
proof -
  have a: "y div 16 < 16" "y' div 16 < 16" using assms(2,4) by linarith+
  have "((x mod 4) * 16 + y div 16) div 16 = ((x' mod 4) * 16 + y' div 16) div 16"
       "((x mod 4) * 16 + y div 16) mod 16 = ((x' mod 4) * 16 + y' div 16) mod 16"
    using assms(6) by simp_all
  then have b: "x mod 4 = x' mod 4" "y div 16 = y' div 16" using a by simp_all
  have c: "y mod 16 = y' mod 16" using assms(7) by simp
  have "x = x'" using b(1) assms(5) by (metis div_mult_mod_eq)
  moreover have "y = y'" using b(2) c by (metis div_mult_mod_eq)
  ultimately show ?thesis by simp
qed

lemma sextets3:
  fixes x y z x' y' z' :: nat
  assumes "x < 256" "y < 256" "z < 256" "x' < 256" "y' < 256" "z' < 256"
    and "x div 4 = x' div 4"
    and "(x mod 4) * 16 + y div 16 = (x' mod 4) * 16 + y' div 16"
    and "(y mod 16) * 4 + z div 64 = (y' mod 16) * 4 + z' div 64"
    and "z mod 64 = z' mod 64"
  shows "x = x' \<and> y = y' \<and> z = z'"
proof -
  have a: "y div 16 < 16" "y' div 16 < 16" "z div 64 < 4" "z' div 64 < 4"
    using assms(2,3,5,6) by linarith+
  have "((x mod 4) * 16 + y div 16) div 16 = ((x' mod 4) * 16 + y' div 16) div 16"
       "((x mod 4) * 16 + y div 16) mod 16 = ((x' mod 4) * 16 + y' div 16) mod 16"
    using assms(8) by simp_all
  then have b: "x mod 4 = x' mod 4" "y div 16 = y' div 16" using a by simp_all
  have "((y mod 16) * 4 + z div 64) div 4 = ((y' mod 16) * 4 + z' div 64) div 4"
       "((y mod 16) * 4 + z div 64) mod 4 = ((y' mod 16) * 4 + z' div 64) mod 4"
    using assms(9) by simp_all
  then have c: "y mod 16 = y' mod 16" "z div 64 = z' div 64" using a by simp_all
  have "x = x'" using b(1) assms(7) by (metis div_mult_mod_eq)
  moreover have "y = y'" using b(2) c(1) by (metis div_mult_mod_eq)
  moreover have "z = z'" using c(2) assms(10) by (metis div_mult_mod_eq)
  ultimately show ?thesis by simp
qed

lemma base64_Nil_iff: "base64 xs = [] \<longleftrightarrow> xs = []"
  by (cases xs rule: base64.cases) simp_all

lemma chars3:
  assumes "b64 (of_char a div 4) = b64 (of_char a' div 4)"
    and "b64 ((of_char a mod 4) * 16 + of_char b div 16) = b64 ((of_char a' mod 4) * 16 + of_char b' div 16)"
    and "b64 ((of_char b mod 16) * 4 + of_char c div 64) = b64 ((of_char b' mod 16) * 4 + of_char c' div 64)"
    and "b64 (of_char c mod 64) = b64 (of_char c' mod 64)"
  shows "a = a' \<and> b = b' \<and> c = c'"
proof -
  let ?x = "of_char a :: nat" and ?y = "of_char b :: nat" and ?z = "of_char c :: nat"
  let ?x' = "of_char a' :: nat" and ?y' = "of_char b' :: nat" and ?z' = "of_char c' :: nat"
  have bs: "?x < 256" "?y < 256" "?z < 256" "?x' < 256" "?y' < 256" "?z' < 256" by simp_all
  have 1: "?x div 4 = ?x' div 4"
    using assms(1) sextet_bounds(1)[OF bs(1) bs(2)] sextet_bounds(1)[OF bs(4) bs(5)] b64_inj by blast
  have 2: "(?x mod 4) * 16 + ?y div 16 = (?x' mod 4) * 16 + ?y' div 16"
    using assms(2) sextet_bounds(2)[OF bs(1) bs(2)] sextet_bounds(2)[OF bs(4) bs(5)] b64_inj by blast
  have 3: "(?y mod 16) * 4 + ?z div 64 = (?y' mod 16) * 4 + ?z' div 64"
    using assms(3) sextet_bounds(3)[OF bs(2) bs(3)] sextet_bounds(3)[OF bs(5) bs(6)] b64_inj by blast
  have 4: "?z mod 64 = ?z' mod 64"
    using assms(4) sextet_bounds(4)[OF bs(3) bs(3)] sextet_bounds(4)[OF bs(6) bs(6)] b64_inj by blast
  have "?x = ?x' \<and> ?y = ?y' \<and> ?z = ?z'"
    using sextets3[OF bs 1 2 3 4] .
  then show ?thesis by simp
qed

lemma chars2:
  assumes "b64 (of_char a div 4) = b64 (of_char a' div 4)"
    and "b64 ((of_char a mod 4) * 16 + of_char b div 16) = b64 ((of_char a' mod 4) * 16 + of_char b' div 16)"
    and "b64 ((of_char b mod 16) * 4) = b64 ((of_char b' mod 16) * 4)"
  shows "a = a' \<and> b = b'"
proof -
  let ?x = "of_char a :: nat" and ?y = "of_char b :: nat"
  let ?x' = "of_char a' :: nat" and ?y' = "of_char b' :: nat"
  have bs: "?x < 256" "?y < 256" "?x' < 256" "?y' < 256" by simp_all
  have 1: "?x div 4 = ?x' div 4"
    using assms(1) sextet_bounds(1)[OF bs(1) bs(2)] sextet_bounds(1)[OF bs(3) bs(4)] b64_inj by blast
  have 2: "(?x mod 4) * 16 + ?y div 16 = (?x' mod 4) * 16 + ?y' div 16"
    using assms(2) sextet_bounds(2)[OF bs(1) bs(2)] sextet_bounds(2)[OF bs(3) bs(4)] b64_inj by blast
  have 3: "(?y mod 16) * 4  = (?y' mod 16) * 4"
    using assms(3) sextet_bounds(6)[OF bs(2) bs(2)] sextet_bounds(6)[OF bs(4) bs(4)] b64_inj by blast
  have "?x = ?x' \<and> ?y = ?y'"
    using sextets2[OF bs 1 2 3] .
  then show ?thesis by simp
qed

lemma chars1:
  assumes "b64 (of_char a div 4) = b64 (of_char a' div 4)"
    and "b64 ((of_char a mod 4) * 16) = b64 ((of_char a' mod 4) * 16)"
  shows "a = a'"
proof -
  let ?x = "of_char a :: nat" and ?x' = "of_char a' :: nat"
  have bs: "?x < 256" "?x' < 256" by simp_all
  have 1: "?x div 4 = ?x' div 4"
    using assms(1) sextet_bounds(1)[OF bs(1) bs(1)] sextet_bounds(1)[OF bs(2) bs(2)] b64_inj by blast
  have 2: "(?x mod 4) * 16 = (?x' mod 4) * 16"
    using assms(2) sextet_bounds(5)[OF bs(1) bs(1)] sextet_bounds(5)[OF bs(2) bs(2)] b64_inj by blast
  have "?x = ?x'"
    using sextets1[OF bs 1 2] .
  then show ?thesis by simp
qed

lemma pad3: "b64 (of_char c mod 64) \<noteq> CHR ''=''"
  by (rule b64_not_pad) (rule sextet_bounds(4)[of "of_char c" 0], simp_all)

lemma pad2: "b64 ((of_char b mod 16) * 4 + of_char c div 64) \<noteq> CHR ''=''"
  by (rule b64_not_pad) (rule sextet_bounds(3), simp_all)

lemma base64_inj: "base64 xs = base64 ys \<Longrightarrow> xs = ys"
proof (induction xs arbitrary: ys rule: base64.induct)
  case (1 a b c rest)
  show ?case
  proof (cases ys rule: base64.cases)
    case (1 a' b' c' rest')
    with "1.prems" have e: "a = a' \<and> b = b' \<and> c = c'" and r: "base64 rest = base64 rest'"
      using chars3[of a a' b b' c c'] by simp_all
    from "1.IH"[OF r] e 1 show ?thesis by simp
  next
    case (2 a' b')
    with "1.prems" pad3[of c] show ?thesis by simp
  next
    case (3 a')
    with "1.prems" pad3[of c] show ?thesis by simp
  next
    case 4
    with "1.prems" show ?thesis by simp
  qed
next
  case (2 a b)
  show ?case
  proof (cases ys rule: base64.cases)
    case (1 a' b' c' rest')
    with "2.prems" pad3[of c'] show ?thesis by (simp; metis)
  next
    case (2 a' b')
    with "2.prems" chars2[of a a' b b'] show ?thesis by simp
  next
    case (3 a')
    with "2.prems" b64_not_pad[of "(of_char b mod 16) * 4"] sextet_bounds(6)[of "of_char b" 0]
    show ?thesis by simp
  next
    case 4
    with "2.prems" show ?thesis by simp
  qed
next
  case (3 a)
  show ?case
  proof (cases ys rule: base64.cases)
    case (1 a' b' c' rest')
    with "3.prems" pad3[of c'] show ?thesis by (simp; metis)
  next
    case (2 a' b')
    with "3.prems" b64_not_pad[of "(of_char b' mod 16) * 4"] sextet_bounds(6)[of "of_char b'" 0]
    show ?thesis by (simp; metis)
  next
    case (3 a')
    with "3.prems" chars1[of a a'] show ?thesis by simp
  next
    case 4
    with "3.prems" show ?thesis by simp
  qed
next
  case 4
  then show ?case using base64_Nil_iff[of ys] by auto
qed

subsection \<open>Decimal rendering is injective\<close>

lemma digit_char_inj: "d < 10 \<Longrightarrow> e < 10 \<Longrightarrow> digit_char d = digit_char e \<Longrightarrow> d = e"
proof -
  have "distinct ''0123456789''" by simp
  moreover have "length ''0123456789'' = 10" by simp
  ultimately show "d < 10 \<Longrightarrow> e < 10 \<Longrightarrow> digit_char d = digit_char e \<Longrightarrow> d = e"
    unfolding digit_char_def by (simp add: nth_eq_iff_index_eq)
qed

lemma digit_char_not_dash: "d < 10 \<Longrightarrow> digit_char d \<noteq> CHR ''-''"
proof -
  assume "d < 10"
  then have "''0123456789'' ! d \<in> set ''0123456789''" by (intro nth_mem) simp
  moreover have "CHR ''-'' \<notin> set ''0123456789''" by simp
  ultimately show ?thesis unfolding digit_char_def by metis
qed

lemma digits_nonempty: "digits n \<noteq> []"
  by (subst digits.simps) simp

lemma digits_no_dash: "CHR ''-'' \<notin> set (digits n)"
proof (induction n rule: digits.induct)
  case (1 n)
  show ?case
  proof (cases "n < 10")
    case True
    then show ?thesis using digit_char_not_dash[of n] by (subst digits.simps) auto
  next
    case False
    then show ?thesis using "1.IH" digit_char_not_dash[of "n mod 10"]
      by (subst digits.simps) auto
  qed
qed

lemma digits_inj: "digits m = digits n \<Longrightarrow> m = n"
proof (induction m arbitrary: n rule: digits.induct)
  case (1 m)
  show ?case
  proof (cases "m < 10")
    case m: True
    show ?thesis
    proof (cases "n < 10")
      case True
      with m "1.prems" show ?thesis
        using digit_char_inj[of m n] by (simp add: digits.simps[of m] digits.simps[of n])
    next
      case False
      with m "1.prems" digits_nonempty[of "n div 10"] show ?thesis
        by (simp add: digits.simps[of m] digits.simps[of n])
    qed
  next
    case m: False
    show ?thesis
    proof (cases "n < 10")
      case True
      with m "1.prems" digits_nonempty[of "m div 10"] show ?thesis
        by (simp add: digits.simps[of m] digits.simps[of n])
    next
      case False
      with m "1.prems" have e: "digits (m div 10) = digits (n div 10)"
        and d: "digit_char (m mod 10) = digit_char (n mod 10)"
        by (simp_all add: digits.simps[of m] digits.simps[of n])
      from "1.IH"[OF m e] have "m div 10 = n div 10" .
      moreover from d have "m mod 10 = n mod 10" by (intro digit_char_inj) simp_all
      ultimately show ?thesis by (metis div_mult_mod_eq)
    qed
  qed
qed

lemma show_int_inj: "show_int i = show_int j \<Longrightarrow> i = j"
proof -
  assume a: "show_int i = show_int j"
  have hd: "\<And>n. hd (digits n) \<noteq> CHR ''-''"
    using digits_no_dash digits_nonempty by (metis hd_in_set)
  show ?thesis
  proof (cases "i < 0")
    case i: True
    show ?thesis
    proof (cases "j < 0")
      case True
      with i a have "digits (nat (- i)) = digits (nat (- j))" by (simp add: show_int_def)
      then have "nat (- i) = nat (- j)" by (rule digits_inj)
      with i True show ?thesis by simp
    next
      case False
      with i a have "CHR ''-'' # digits (nat (- i)) = digits (nat j)" by (simp add: show_int_def)
      then have "hd (digits (nat j)) = CHR ''-''" by (metis list.sel(1))
      with hd[of "nat j"] show ?thesis by simp
    qed
  next
    case i: False
    show ?thesis
    proof (cases "j < 0")
      case True
      with i a have "CHR ''-'' # digits (nat (- j)) = digits (nat i)" by (simp add: show_int_def)
      then have "hd (digits (nat i)) = CHR ''-''" by (metis list.sel(1))
      with hd[of "nat i"] show ?thesis by simp
    next
      case False
      with i a have "digits (nat i) = digits (nat j)" by (simp add: show_int_def)
      then have "nat i = nat j" by (rule digits_inj)
      with i False show ?thesis by simp
    qed
  qed
qed

lemma show_int_no_dash: "0 \<le> i \<Longrightarrow> CHR ''-'' \<notin> set (show_int i)"
  by (simp add: show_int_def digits_no_dash)

lemma dash_split:
  assumes "CHR ''-'' \<notin> set s" "CHR ''-'' \<notin> set r"
    and "s' @ CHR ''-'' # r' = s @ CHR ''-'' # r"
  shows "s' = s \<and> r' = r"
proof -
  from assms(3) obtain us where
    "(s' = s @ us \<and> us @ CHR ''-'' # r' = CHR ''-'' # r) \<or> (s' @ us = s \<and> CHR ''-'' # r' = us @ CHR ''-'' # r)"
    by (auto simp: append_eq_append_conv2)
  then show ?thesis
  proof
    assume h: "s' = s @ us \<and> us @ CHR ''-'' # r' = CHR ''-'' # r"
    show ?thesis
    proof (cases us)
      case Nil
      with h show ?thesis by simp
    next
      case (Cons u us')
      with h have "us' @ CHR ''-'' # r' = r" by simp
      then have "CHR ''-'' \<in> set r" by (metis in_set_conv_decomp)
      with assms(2) show ?thesis by simp
    qed
  next
    assume h: "s' @ us = s \<and> CHR ''-'' # r' = us @ CHR ''-'' # r"
    show ?thesis
    proof (cases us)
      case Nil
      with h show ?thesis by simp
    next
      case (Cons u us')
      with h have "u = CHR ''-''" by simp
      with Cons h have "CHR ''-'' \<in> set s" by auto
      with assms(1) show ?thesis by simp
    qed
  qed
qed

lemma sign_eq_iff_text:
  "sign env sid ts = sign env sid' ts' \<longleftrightarrow>
     sid @ CHR ''-'' # show_int ts = sid' @ CHR ''-'' # show_int ts'"
proof
  assume "sign env sid ts = sign env sid' ts'"
  then have "sid @ ''-'' @ show_int ts @ ''-'' @ qr_secret env =
             sid' @ ''-'' @ show_int ts' @ ''-'' @ qr_secret env"
    unfolding sign_def by (rule base64_inj)
  then have "(sid @ CHR ''-'' # show_int ts) @ (CHR ''-'' # qr_secret env) =
             (sid' @ CHR ''-'' # show_int ts') @ (CHR ''-'' # qr_secret env)"
    by simp
  then show "sid @ CHR ''-'' # show_int ts = sid' @ CHR ''-'' # show_int ts'"
    by (simp only: same_append_eq append_same_eq)
next
  assume a: "sid @ CHR ''-'' # show_int ts = sid' @ CHR ''-'' # show_int ts'"
  have "sign env sid ts = base64 ((sid @ CHR ''-'' # show_int ts) @ CHR ''-'' # qr_secret env)"
    by (simp add: sign_def)
  also have "\<dots> = base64 ((sid' @ CHR ''-'' # show_int ts') @ CHR ''-'' # qr_secret env)"
    by (simp only: a)
  also have "\<dots> = sign env sid' ts'"
    by (simp add: sign_def)
  finally show "sign env sid ts = sign env sid' ts'" .
qed

lemma verify_generated:
  "verifyQRSignature env (generateQRPayload env now sid cid fid loc expiresIn)"
  by (simp add: verifyQRSignature_def generateQRPayload_def)

lemma autoId_no_dash: "autoId s \<Longrightarrow> CHR ''-'' \<notin> set s"
proof
  assume a: "autoId s" and b: "CHR ''-'' \<in> set s"
  from a have "\<forall>c\<in>set s. c \<in> set autoIdChars" by (simp add: autoId_def list_all_iff)
  with b have "CHR ''-'' \<in> set autoIdChars" by blast
  then show False by (simp add: autoIdChars_def)
qed

text \<open>
  The hypothesis on session ids matters: for an id ending in a dash, which Firestore
  never assigns, a negative timestamp gives the same signed text.
\<close>

lemma sign_collision_outside_autoId: "sign env ''a-'' 5 = sign env ''a'' (- 5)"
  by (simp add: sign_eq_iff_text show_int_def digits.simps)

section \<open>The QR signature\<close>

text \<open>
  Claim C9. Signature verification reads only \<open>sessionId\<close>, \<open>timestamp\<close> and
  \<open>signature\<close>: two payloads that agree on these three fields get the same verdict,
  however they differ in \<open>courseId\<close>, \<open>facultyId\<close>, \<open>expiresAt\<close> or \<open>location\<close>. So a token
  whose expiry or geofence has been altered still verifies as validly signed.
\<close>

theorem verifyQRSignature_reads_three_fields:
  assumes "sessionId p = sessionId q" and "timestamp p = timestamp q"
    and "signature p = signature q"
  shows "verifyQRSignature env p = verifyQRSignature env q"
  using assms by (simp add: verifyQRSignature_def)

text \<open>
  An issued token whose course, faculty, expiry and geofence have all been replaced is
  still accepted by the signature check.
\<close>

theorem verifyQRSignature_reads_three_fields_witness:
  "verifyQRSignature None
     ((generateQRPayload None 1000 ''AbCdEfGhIjKlMnOpQrSt'' ''c1'' ''f1''
         (Some \<lparr>latitude = 12, longitude = 77, radius = Some 50\<rparr>) 300000)
       \<lparr>courseId := ''c2'', facultyId := ''f2'', expiresAt := 999999999999999, location := None\<rparr>)"
  using verifyQRSignature_reads_three_fields
    [of "(generateQRPayload None 1000 ''AbCdEfGhIjKlMnOpQrSt'' ''c1'' ''f1''
         (Some \<lparr>latitude = 12, longitude = 77, radius = Some 50\<rparr>) 300000)
       \<lparr>courseId := ''c2'', facultyId := ''f2'', expiresAt := 999999999999999, location := None\<rparr>"
       "generateQRPayload None 1000 ''AbCdEfGhIjKlMnOpQrSt'' ''c1'' ''f1''
         (Some \<lparr>latitude = 12, longitude = 77, radius = Some 50\<rparr>) 300000" None]
    verify_generated[of None 1000 "''AbCdEfGhIjKlMnOpQrSt''" "''c1''" "''f1''"
         "Some \<lparr>latitude = 12, longitude = 77, radius = Some 50\<rparr>" 300000]
  by (simp add: generateQRPayload_def)

text \<open>
  Claim C7. Tamper-evidence: take a token issued for a session (its id assigned by
  Firestore, the clock not before the epoch) and change its session id or its timestamp
  to any other string or integer, keeping the signature. Verification then returns
  invalid, because the signature recomputed over the changed fields differs from the one
  carried.
\<close>

theorem tampered_token_rejected:
  assumes "autoId sid" and "0 \<le> now"
    and "sid' \<noteq> sid \<or> ts' \<noteq> now"
  shows "\<not> verifyQRSignature env
           ((generateQRPayload env now sid cid fid loc expiresIn)\<lparr>sessionId := sid', timestamp := ts'\<rparr>)"
proof
  assume "verifyQRSignature env
           ((generateQRPayload env now sid cid fid loc expiresIn)\<lparr>sessionId := sid', timestamp := ts'\<rparr>)"
  then have "sign env sid now = sign env sid' ts'"
    by (simp add: verifyQRSignature_def generateQRPayload_def)
  then have "sid' @ CHR ''-'' # show_int ts' = sid @ CHR ''-'' # show_int now"
    by (simp add: sign_eq_iff_text)
  then have "sid' = sid \<and> show_int ts' = show_int now"
    using dash_split autoId_no_dash[OF assms(1)] show_int_no_dash[OF assms(2)] by blast
  then have "sid' = sid \<and> ts' = now" using show_int_inj by blast
  with assms(3) show False by simp
qed

theorem tampered_token_rejected_witness:
  "\<not> verifyQRSignature None
       ((generateQRPayload None 1000 ''AbCdEfGhIjKlMnOpQrSt'' ''c1'' ''f1'' None 300000)
          \<lparr>sessionId := ''AbCdEfGhIjKlMnOpQrSu'', timestamp := 1001\<rparr>)"
proof -
  have 1: "autoId ''AbCdEfGhIjKlMnOpQrSt''" by (simp add: autoId_def autoIdChars_def)
  have 2: "(0::int) \<le> 1000" by simp
  have 3: "''AbCdEfGhIjKlMnOpQrSu'' \<noteq> ''AbCdEfGhIjKlMnOpQrSt'' \<or> (1001::int) \<noteq> 1000" by simp
  show ?thesis by (rule tampered_token_rejected[OF 1 2 3])
qed

section \<open>The scan path\<close>

subsection \<open>Auxiliary facts\<close>

lemma calculateDistance_same: "calculateDistance la lo la lo = 0"
  by (simp add: calculateDistance_def atan2_def)

lemma recordScan_checked:
  assumes "qrData req = Some p" "verifyQRSignature env p" "now \<le> expiresAt p"
    "sessions d (sessionId p) = Some s" "enrollmentSnapshot d userId (courseId p) \<noteq> []"
    "existingAttendance d (sessionId p) userId = []"
  shows "recordScan env now userId req d =
    (case verifyGeolocation (location p) (req_latitude req) (req_longitude req) of
       Inl e \<Rightarrow> (Inl e, d)
     | Inr (v, x) \<Rightarrow>
        (Inr \<lparr> att_id = length (attendance d),
                att = attendanceData now userId req p v x,
                studentName = (case students d userId of None \<Rightarrow> Some ''Unknown'' | Some n \<Rightarrow> n),
                courseName = (case s_courseName s of None \<Rightarrow> ''Unknown Course''
                              | Some n \<Rightarrow> if n = [] then ''Unknown Course'' else n) \<rparr>,
         d\<lparr>attendance := attendance d @ [attendanceData now userId req p v x],
           sessions := (sessions d)(sessionId p \<mapsto> s\<lparr>presentCount := presentCount s + 1\<rparr>)\<rparr>))"
  using assms
  by (simp add: recordScan_def updateSession_def Let_def split: sum.splits prod.splits)

lemma example_checks:
  "verifyQRSignature None (exampleToken loc)"
  "sessionId (exampleToken loc) = exampleSid"
  "courseId (exampleToken loc) = ''c1''"
  "expiresAt (exampleToken loc) = 301000"
  "location (exampleToken loc) = loc"
  "sessions (exampleDb atts) exampleSid = Some exampleSession"
  "enrollmentSnapshot (exampleDb atts) ''u1'' ''c1'' \<noteq> []"
  "attendance (exampleDb atts) = atts"
  "qrData (exampleRequest p la lo) = Some p"
  "req_latitude (exampleRequest p la lo) = la"
  "req_longitude (exampleRequest p la lo) = lo"
  "qrData exampleScan = Some (exampleToken (Some exampleFence))"
  "verifyGeolocation (Some exampleFence) (req_latitude exampleScan) (req_longitude exampleScan)
     = Inr (True, 0)"
  by (simp_all add: exampleToken_def verify_generated exampleDb_def exampleRequest_def
      generateQRPayload_def enrollmentSnapshot_def verifyQRSignature_def exampleScan_def
      verifyGeolocation_def truthy_def maxDistance_def exampleFence_def calculateDistance_same)

lemma existingAttendance_iff:
  "existingAttendance d sid userId \<noteq> [] \<longleftrightarrow>
     (\<exists>a \<in> set (attendance d). a_sessionId a = sid \<and> a_studentId a = userId)"
  by (auto simp add: existingAttendance_def filter_empty_conv)

lemma math_round_0: "math_round 0 = 0"
  by (simp add: math_round_def)

subsection \<open>No mutation on failure\<close>

text \<open>
  Claim C5. Atomicity of the scan path on failure: whenever \<open>recordScan\<close> answers with an
  error, the persisted state is the one it started from; in particular no attendance
  record has been created and no present-count incremented. The only error the model
  could return after a write, the failed update of the session document, never occurs.
\<close>

theorem recordScan_error_leaves_state:
  assumes "recordScan env now userId req d = (Inl e, d')"
  shows "d' = d \<and> attendance d' = attendance d \<and> sessions d' = sessions d \<and> e \<noteq> Internal"
  using assms
  by (auto simp add: recordScan_def updateSession_def Let_def verifyGeolocation_def
      split: option.splits if_splits sum.splits prod.splits)

theorem recordScan_error_leaves_state_witness:
  "snd (recordScan None 1000 ''u2'' exampleScan (exampleDb []))
     = exampleDb []"
proof -
  have "recordScan None 1000 ''u2'' exampleScan (exampleDb [])
          = (Inl Forbidden, exampleDb [])"
    by (simp add: recordScan_def example_checks enrollmentSnapshot_def exampleDb_def)
  then show ?thesis
    using recordScan_error_leaves_state[of None 1000 "''u2''"
        exampleScan "exampleDb []" Forbidden "exampleDb []"]
    by simp
qed

subsection \<open>Expiry\<close>

text \<open>
  Claim C2, as amended. For every issued token the scan path answers \<open>Expired\<close> exactly
  when the current time is strictly greater than the token's \<open>expiresAt\<close> (the source
  tests \<^verbatim>\<open>Date.now() > payload.expiresAt\<close>); and once a token is rejected as expired it
  is rejected as expired at every later time, whatever the state.
\<close>

theorem expiry_check_is_strict:
  assumes "qrData req = Some (generateQRPayload env t0 sid cid fid loc expiresIn)"
  shows "(fst (recordScan env now userId req d) = Inl Expired \<longleftrightarrow> t0 + expiresIn < now)
       \<and> (fst (recordScan env now userId req d) = Inl Expired \<and> now \<le> now'
            \<longrightarrow> fst (recordScan env now' userId req d') = Inl Expired)"
proof -
  let ?p = "generateQRPayload env t0 sid cid fid loc expiresIn"
  have e: "expiresAt ?p = t0 + expiresIn" by (simp add: generateQRPayload_def)
  have *: "fst (recordScan env n userId req dd) = Inl Expired \<longleftrightarrow> t0 + expiresIn < n" for n dd
    using assms verify_generated[of env t0 sid cid fid loc expiresIn] e
    by (auto simp add: recordScan_def updateSession_def Let_def verifyGeolocation_def
      split: option.splits if_splits sum.splits prod.splits)
  show ?thesis using *[of now d] *[of now' d'] by auto
qed

theorem expiry_check_is_strict_witness:
  "fst (recordScan None 301001 ''u1'' exampleScan (exampleDb []))
     = Inl Expired
   \<and> fst (recordScan None 400000 ''u1'' exampleScan (exampleDb []))
     = Inl Expired"
  using expiry_check_is_strict[of exampleScan
      None 1000 exampleSid "''c1''" "''f1''" "Some exampleFence" 300000 301001 "''u1''" "exampleDb []" 400000 "exampleDb []"]
  by (simp add: example_checks exampleToken_def)

text \<open>
  The claim as stated fails at the boundary: at the instant \<open>now = expiresAt\<close> the token
  is not rejected, and the scan is recorded.
\<close>

theorem expiry_boundary_counterexample:
  "expiresAt (exampleToken (Some exampleFence)) = 301000
   \<and> \<not> isl (fst (recordScan None 301000 ''u1'' exampleScan (exampleDb [])))
   \<and> map status (attendance (snd (recordScan None 301000 ''u1'' exampleScan (exampleDb [])))) = [Present]"
  by (simp add: recordScan_checked[OF example_checks(12) example_checks(1)]
      example_checks existingAttendance_def attendanceData_def)

subsection \<open>Duplicate scans\<close>

text \<open>
  Claim C1, as amended. Once the token, the session and the enrolment have been checked,
  the duplicate check looks for any attendance record of the (session, student) pair,
  whatever its status, and the call fails with \<open>AlreadyMarked\<close> exactly when such a record
  exists. After a successful scan, a second call with the same token, still not expired,
  by the same student fails with \<open>AlreadyMarked\<close> and leaves the state as the first call
  left it: one \<open>present\<close> record appended, the present-count incremented once.
\<close>

theorem duplicate_scan_rejected:
  assumes "qrData req = Some p" and "verifyQRSignature env p" and "now \<le> expiresAt p"
    and "sessions d (sessionId p) = Some s"
    and "enrollmentSnapshot d userId (courseId p) \<noteq> []"
  shows "(fst (recordScan env now userId req d) = Inl AlreadyMarked \<longleftrightarrow>
            (\<exists>a \<in> set (attendance d). a_sessionId a = sessionId p \<and> a_studentId a = userId))
       \<and> (\<forall>ok d'. recordScan env now userId req d = (Inr ok, d') \<and> now' \<le> expiresAt p
                  \<and> qrData req' = Some p \<longrightarrow>
             recordScan env now' userId req' d' = (Inl AlreadyMarked, d')
             \<and> attendance d' = attendance d @ [att ok]
             \<and> status (att ok) = Present
             \<and> sessions d' = (sessions d)(sessionId p \<mapsto> s\<lparr>presentCount := presentCount s + 1\<rparr>))"
proof (intro conjI allI impI)
  show "fst (recordScan env now userId req d) = Inl AlreadyMarked \<longleftrightarrow>
            (\<exists>a \<in> set (attendance d). a_sessionId a = sessionId p \<and> a_studentId a = userId)"
  proof (cases "existingAttendance d (sessionId p) userId = []")
    case True
    then have "fst (recordScan env now userId req d) \<noteq> Inl AlreadyMarked"
      using assms
      by (auto simp add: recordScan_checked verifyGeolocation_def Let_def
          split: sum.splits prod.splits option.splits if_splits)
    with True show ?thesis using existingAttendance_iff[of d "sessionId p" userId] by simp
  next
    case False
    then have "fst (recordScan env now userId req d) = Inl AlreadyMarked"
      using assms by (simp add: recordScan_def)
    with False show ?thesis using existingAttendance_iff[of d "sessionId p" userId] by simp
  qed
next
  fix ok d'
  assume a: "recordScan env now userId req d = (Inr ok, d') \<and> now' \<le> expiresAt p
                  \<and> qrData req' = Some p"
  have none: "existingAttendance d (sessionId p) userId = []"
  proof (rule ccontr)
    assume "existingAttendance d (sessionId p) userId \<noteq> []"
    then have "fst (recordScan env now userId req d) = Inl AlreadyMarked"
      using assms by (simp add: recordScan_def)
    with a show False by simp
  qed
  from a obtain v x where
    ok: "att ok = attendanceData now userId req p v x"
    and d': "d' = d\<lparr>attendance := attendance d @ [attendanceData now userId req p v x],
           sessions := (sessions d)(sessionId p \<mapsto> s\<lparr>presentCount := presentCount s + 1\<rparr>)\<rparr>"
    using recordScan_checked[OF assms none]
    by (auto split: sum.splits prod.splits)
  show "attendance d' = attendance d @ [att ok]" using ok d' by simp
  show "status (att ok) = Present" using ok by (simp add: attendanceData_def)
  show "sessions d' = (sessions d)(sessionId p \<mapsto> s\<lparr>presentCount := presentCount s + 1\<rparr>)"
    using d' by simp
  have "existingAttendance d' (sessionId p) userId \<noteq> []"
    unfolding existingAttendance_iff using d' by (simp add: attendanceData_def)
  moreover have "enrollmentSnapshot d' userId (courseId p) \<noteq> []"
    using assms(5) d' by (simp add: enrollmentSnapshot_def)
  moreover have "sessions d' (sessionId p) \<noteq> None" using d' by simp
  ultimately show "recordScan env now' userId req' d' = (Inl AlreadyMarked, d')"
    using a assms(2) by (auto simp add: recordScan_def)
qed

theorem duplicate_scan_rejected_witness:
  "recordScan None 2000 ''u1'' exampleScan
      (snd (recordScan None 1000 ''u1'' exampleScan (exampleDb [])))
   = (Inl AlreadyMarked,
      snd (recordScan None 1000 ''u1'' exampleScan (exampleDb [])))"
proof -
  let ?req = exampleScan
  let ?r = "recordScan None 1000 ''u1'' ?req (exampleDb [])"
  have 1: "qrData ?req = Some (exampleToken (Some exampleFence))" by (simp add: example_checks)
  have 2: "verifyQRSignature None (exampleToken (Some exampleFence))" by (simp add: example_checks)
  have 3: "1000 \<le> expiresAt (exampleToken (Some exampleFence))" by (simp add: example_checks)
  have 4: "sessions (exampleDb []) (sessionId (exampleToken (Some exampleFence))) = Some exampleSession"
    by (simp add: example_checks)
  have 5: "enrollmentSnapshot (exampleDb []) ''u1'' (courseId (exampleToken (Some exampleFence))) \<noteq> []"
    by (simp add: example_checks)
  have "\<not> isl (fst ?r)"
    by (simp add: recordScan_checked[OF 1 2 3 4 5] example_checks existingAttendance_def)
  then obtain ok where "?r = (Inr ok, snd ?r)"
    by (cases ?r; cases "fst ?r") auto
  moreover have "2000 \<le> expiresAt (exampleToken (Some exampleFence))" by (simp add: example_checks)
  ultimately show ?thesis
    using duplicate_scan_rejected[OF 1 2 3 4 5, of 2000 ?req] 1 by blast
qed

text \<open>
  The claim as stated fails where the pair has a record that is not \<open>present\<close>: the
  student's only record is \<open>absent\<close>, and the scan is still rejected as already marked.
\<close>

theorem absent_record_blocks_scan_counterexample:
  "filter (\<lambda>a. status a = Present) (attendance (exampleDb [exampleAbsent])) = []
   \<and> fst (recordScan None 2000 ''u1'' exampleScan
            (exampleDb [exampleAbsent])) = Inl AlreadyMarked"
  by (simp add: recordScan_def example_checks existingAttendance_def exampleAbsent_def
      markAbsentDoc_def manualDoc_def)

subsection \<open>Geofence\<close>

text \<open>
  Claim C10. Geofence bypass: when the token carries a geofence and the request omits the
  latitude or the longitude, or supplies a falsy one such as \<open>0\<close>, a scan that passes
  the earlier checks skips the distance check; the attendance record is created with
  \<open>locationVerified\<close> true and a recorded distance of \<open>0\<close>.
\<close>

theorem geofence_skipped_without_coordinates:
  assumes "qrData req = Some p" and "verifyQRSignature env p" and "now \<le> expiresAt p"
    and "sessions d (sessionId p) = Some s"
    and "enrollmentSnapshot d userId (courseId p) \<noteq> []"
    and "existingAttendance d (sessionId p) userId = []"
    and "location p = Some l"
    and "\<not> truthy (req_latitude req) \<or> \<not> truthy (req_longitude req)"
  shows "\<not> isl (fst (recordScan env now userId req d))
       \<and> attendance (snd (recordScan env now userId req d))
           = attendance d @ [attendanceData now userId req p True 0]
       \<and> locationVerified (attendanceData now userId req p True 0) = True
       \<and> distanceFromClass (attendanceData now userId req p True 0) = Some 0"
proof -
  have "verifyGeolocation (location p) (req_latitude req) (req_longitude req) = Inr (True, 0)"
    using assms(7,8) by (auto simp add: verifyGeolocation_def)
  then show ?thesis
    by (simp add: recordScan_checked[OF assms(1-6)] attendanceData_def math_round_0)
qed

theorem geofence_skipped_without_coordinates_witness:
  "attendance (snd (recordScan None 1000 ''u1''
      (exampleRequest (exampleToken (Some \<lparr>latitude = 0, longitude = 180, radius = Some 50\<rparr>))
         (Some 0) None) (exampleDb [])))
   = [attendanceData 1000 ''u1''
        (exampleRequest (exampleToken (Some \<lparr>latitude = 0, longitude = 180, radius = Some 50\<rparr>))
           (Some 0) None)
        (exampleToken (Some \<lparr>latitude = 0, longitude = 180, radius = Some 50\<rparr>)) True 0]"
proof -
  let ?l = "\<lparr>latitude = 0, longitude = 180, radius = Some 50\<rparr>"
  let ?req = "exampleRequest (exampleToken (Some ?l)) (Some 0) None"
  have 1: "qrData ?req = Some (exampleToken (Some ?l))" by (simp add: example_checks)
  have 2: "verifyQRSignature None (exampleToken (Some ?l))" by (simp add: example_checks)
  have 3: "1000 \<le> expiresAt (exampleToken (Some ?l))" by (simp add: example_checks)
  have 4: "sessions (exampleDb []) (sessionId (exampleToken (Some ?l))) = Some exampleSession"
    by (simp add: example_checks)
  have 5: "enrollmentSnapshot (exampleDb []) ''u1'' (courseId (exampleToken (Some ?l))) \<noteq> []"
    by (simp add: example_checks)
  have 6: "existingAttendance (exampleDb []) (sessionId (exampleToken (Some ?l))) ''u1'' = []"
    by (simp add: existingAttendance_def example_checks)
  have 7: "location (exampleToken (Some ?l)) = Some ?l" by (simp add: example_checks)
  have 8: "\<not> truthy (req_latitude ?req) \<or> \<not> truthy (req_longitude ?req)"
    by (simp add: example_checks truthy_def)
  show ?thesis
    using geofence_skipped_without_coordinates[OF 1 2 3 4 5 6 7 8]
    by (simp add: example_checks)
qed

text \<open>
  What the route does when both observed coordinates are non-zero: the scan is accepted
  when the distance is at most the allowed distance, and otherwise rejected with the
  rounded distance and the allowed distance, the state unchanged. The allowed distance is
  the token's radius, or 50 when the radius is absent or zero. The distance here is that
  of the real-number model of the Haversine formula.
\<close>

lemma maxDistance_cases:
  "maxDistance l = (case radius l of None \<Rightarrow> 50 | Some r \<Rightarrow> if r = 0 then 50 else r)"
  by (simp add: maxDistance_def truthy_def split: option.splits)

lemma geofence_checked_coordinates:
  assumes "qrData req = Some p" and "verifyQRSignature env p" and "now \<le> expiresAt p"
    and "sessions d (sessionId p) = Some s"
    and "enrollmentSnapshot d userId (courseId p) \<noteq> []"
    and "existingAttendance d (sessionId p) userId = []"
    and "location p = Some l"
    and "req_latitude req = Some la" and "la \<noteq> 0"
    and "req_longitude req = Some lo" and "lo \<noteq> 0"
  shows "(calculateDistance la lo (latitude l) (longitude l) \<le> maxDistance l \<longrightarrow>
            \<not> isl (fst (recordScan env now userId req d))
            \<and> attendance (snd (recordScan env now userId req d))
                = attendance d @ [attendanceData now userId req p True
                                    (calculateDistance la lo (latitude l) (longitude l))])
       \<and> (maxDistance l < calculateDistance la lo (latitude l) (longitude l) \<longrightarrow>
            recordScan env now userId req d
              = (Inl (OutOfRange (math_round (calculateDistance la lo (latitude l) (longitude l)))
                        (maxDistance l)), d))"
proof -
  have t: "truthy (req_latitude req) \<and> truthy (req_longitude req)"
    using assms(8-11) by (simp add: truthy_def)
  show ?thesis
    using t assms(7,8,10)
    by (simp add: recordScan_checked[OF assms(1-6)] verifyGeolocation_def Let_def)
qed

text \<open>Along a meridian the distance is the arc between the two latitudes.\<close>

lemma calculateDistance_meridian:
  assumes "0 \<le> b - a" and "b - a < 180"
  shows "calculateDistance a lo b lo = 6371000 * ((b - a) * pi / 180)"
proof -
  define x where "x = (b - a) * pi / 180 / 2"
  have x0: "0 \<le> x" using assms(1) by (simp add: x_def)
  have "(b - a) * pi < 180 * pi" using assms(2) by simp
  then have x1: "x < pi / 2" by (simp add: x_def)
  have c: "0 < cos x" using x0 x1 by (intro cos_gt_zero_pi) linarith+
  have s: "0 \<le> sin x" using x0 x1 by (intro sin_ge_zero) linarith+
  have "1 - sin x * sin x = cos x * cos x"
    using sin_cos_squared_add[of x] by (simp add: power2_eq_square algebra_simps)
  then have q: "sqrt (1 - sin x * sin x) = cos x" using c by simp
  have p: "sqrt (sin x * sin x) = sin x" using s by simp
  have "atan2 (sin x) (cos x) = arctan (tan x)" using c by (simp add: atan2_def tan_def)
  also have "\<dots> = x" using x0 x1 by (intro arctan_tan) linarith+
  finally have t: "atan2 (sin x) (cos x) = x" .
  have "calculateDistance a lo b lo = 6371000 * (2 * atan2 (sqrt (sin x * sin x)) (sqrt (1 - sin x * sin x)))"
    by (simp add: calculateDistance_def x_def Let_def)
  also have "\<dots> = 6371000 * (2 * x)" by (simp only: p q t)
  finally show ?thesis by (simp add: x_def)
qed

lemma equator_far_from_fence:
  "50 < calculateDistance 0 77 (latitude exampleFence) (longitude exampleFence)"
proof -
  have "calculateDistance 0 77 12 77 = 6371000 * ((12 - 0) * pi / 180)"
    by (rule calculateDistance_meridian) simp_all
  moreover have "(50::real) < 6371000 * ((12 - 0) * pi / 180)" using pi_ge_two by simp
  ultimately show ?thesis by (simp add: exampleFence_def)
qed

text \<open>
  Claim C3 says that, when the token carries a geofence and observed coordinates are
  supplied, a scan whose distance exceeds the radius is rejected with \<open>OutOfRange\<close>. The
  route tests the coordinates for truthiness, so a supplied latitude of \<open>0\<close> counts as
  missing: a student on the equator, twelve degrees of latitude from the centre of the
  50 metre geofence, supplies both coordinates, and the scan is accepted and stored as
  location-verified at distance \<open>0\<close>.
\<close>

theorem zero_latitude_skips_geofence:
  "maxDistance exampleFence = 50
   \<and> 50 < calculateDistance 0 77 (latitude exampleFence) (longitude exampleFence)
   \<and> \<not> isl (fst (recordScan None 1000 ''u1''
              (exampleRequest (exampleToken (Some exampleFence)) (Some 0) (Some 77)) (exampleDb [])))
   \<and> map (\<lambda>a. (a_studentId a, status a, locationVerified a, distanceFromClass a))
        (attendance (snd (recordScan None 1000 ''u1''
              (exampleRequest (exampleToken (Some exampleFence)) (Some 0) (Some 77)) (exampleDb []))))
      = [(''u1'', Present, True, Some 0)]"
proof -
  let ?req = "exampleRequest (exampleToken (Some exampleFence)) (Some 0) (Some 77)"
  have 6: "existingAttendance (exampleDb []) (sessionId (exampleToken (Some exampleFence))) ''u1'' = []"
    by (simp add: existingAttendance_def example_checks)
  have g: "verifyGeolocation (Some exampleFence) (Some 0) (Some 77) = Inr (True, 0)"
    by (simp add: verifyGeolocation_def truthy_def)
  have m: "maxDistance exampleFence = 50"
    by (simp add: maxDistance_def truthy_def exampleFence_def)
  have "\<not> isl (fst (recordScan None 1000 ''u1'' ?req (exampleDb [])))
      \<and> map (\<lambda>a. (a_studentId a, status a, locationVerified a, distanceFromClass a))
           (attendance (snd (recordScan None 1000 ''u1'' ?req (exampleDb []))))
         = [(''u1'', Present, True, Some 0)]"
    by (simp add: recordScan_checked[OF example_checks(9) example_checks(1) _ _ _ 6]
        example_checks g attendanceData_def math_round_0)
  with m equator_far_from_fence show ?thesis by simp
qed

section \<open>Stopping a session\<close>

lemma stopSession_caller_irrelevant:
  "stopSession now caller sid d = stopSession now caller' sid d"
  by (simp add: stopSession_def)

text \<open>
  Claim C4 says that \<open>stopSession\<close> fails with \<open>Forbidden\<close> for a caller who is not the
  owning faculty and with \<open>NotFound\<close> for an absent session. The route does neither: a
  caller \<open>f2\<close> stops the session owned by \<open>f1\<close> (inactive, end time stamped, token
  deleted), and an absent session gives the internal error of the failed update.
\<close>

theorem stopSession_unauthorized_caller:
  "s_facultyId exampleSession = ''f1''
   \<and> fst (stopSession 2000 ''f2'' exampleSid (exampleDb [])) = Inr ()
   \<and> map_option isActive (sessions (snd (stopSession 2000 ''f2'' exampleSid (exampleDb []))) exampleSid)
        = Some False
   \<and> map_option endedAt (sessions (snd (stopSession 2000 ''f2'' exampleSid (exampleDb []))) exampleSid)
        = Some (Some 2000)
   \<and> activeQRs (snd (stopSession 2000 ''f2'' exampleSid (exampleDb []))) exampleSid = None
   \<and> fst (stopSession 2000 ''f1'' ''missing'' (exampleDb [])) = Inl Internal"
  by (simp add: stopSession_def updateSession_def exampleDb_def exampleSession_def exampleSid_def)

section \<open>Join-code generation\<close>

lemma chars_length: "length chars = 32"
  by (simp add: chars_def)

lemma charAt_random:
  assumes "0 \<le> r" and "r < 1"
  shows "length (charAt chars \<lfloor>r * real (length chars)\<rfloor>) = 1 \<and>
         set (charAt chars \<lfloor>r * real (length chars)\<rfloor>) \<subseteq> set chars"
proof -
  have a: "0 \<le> \<lfloor>r * 32\<rfloor>" using assms(1) by simp
  have "r * 32 < 32" using assms(2) by simp
  then have b: "\<lfloor>r * 32\<rfloor> < 32" by (simp add: floor_less_iff)
  from a b have "nat \<lfloor>r * 32\<rfloor> < 32" by linarith
  then have "nat \<lfloor>r * 32\<rfloor> < length chars" by (simp add: chars_length)
  then have "chars ! nat \<lfloor>r * 32\<rfloor> \<in> set chars" by (rule nth_mem)
  with a b show ?thesis by (simp add: charAt_def chars_length)
qed

lemma joinCodeLoop_props:
  assumes "\<forall>i. 0 \<le> rnd i \<and> rnd i < 1"
  shows "length (joinCodeLoop rnd k n code) = length code + n \<and>
         set (joinCodeLoop rnd k n code) \<subseteq> set code \<union> set chars"
proof (induction n arbitrary: k code)
  case 0
  show ?case by simp
next
  case (Suc n)
  from assms have r: "0 \<le> rnd k" "rnd k < 1" by simp_all
  show ?case using Suc.IH[of "Suc k" "code @ charAt chars \<lfloor>rnd k * real (length chars)\<rfloor>"]
      charAt_random[OF r] by auto
qed

lemma generateJoinCode_props:
  assumes "\<forall>i. 0 \<le> rnd i \<and> rnd i < 1"
  shows "length (generateJoinCode rnd k) = 6" "set (generateJoinCode rnd k) \<subseteq> set chars"
  using joinCodeLoop_props[OF assms, of k 6 "[]"] by (simp_all add: generateJoinCode_def)

lemma existingJoinCode_empty_iff:
  "existingJoinCode cs code = [] \<longleftrightarrow> (\<forall>c \<in> set cs. joinCode c \<noteq> Some code)"
  by (auto simp add: existingJoinCode_def filter_empty_conv)

lemma uniqueJoinCode_returns:
  assumes "existingJoinCode cs (generateJoinCode rnd (k + 6 * n)) = []"
  shows "\<exists>m\<le>n. uniqueJoinCode rnd k cs = Some (generateJoinCode rnd (k + 6 * m))
           \<and> existingJoinCode cs (generateJoinCode rnd (k + 6 * m)) = []
           \<and> (\<forall>j<m. existingJoinCode cs (generateJoinCode rnd (k + 6 * j)) \<noteq> [])"
  using assms
proof (induction n arbitrary: k)
  case 0
  then have "uniqueJoinCode rnd k cs = Some (generateJoinCode rnd k)"
    by (subst uniqueJoinCode.simps) simp
  with 0 show ?case by simp
next
  case (Suc n)
  show ?case
  proof (cases "existingJoinCode cs (generateJoinCode rnd k) = []")
    case True
    then have "uniqueJoinCode rnd k cs = Some (generateJoinCode rnd k)"
      by (subst uniqueJoinCode.simps) simp
    with True show ?thesis by (intro exI[of _ 0]) simp
  next
    case False
    have "existingJoinCode cs (generateJoinCode rnd ((k + 6) + 6 * n)) = []"
      using Suc.prems by (simp add: algebra_simps)
    from Suc.IH[OF this] obtain m where m: "m \<le> n"
      "uniqueJoinCode rnd (k + 6) cs = Some (generateJoinCode rnd (k + 6 + 6 * m))"
      "existingJoinCode cs (generateJoinCode rnd (k + 6 + 6 * m)) = []"
      "\<forall>j<m. existingJoinCode cs (generateJoinCode rnd (k + 6 + 6 * j)) \<noteq> []"
      by blast
    have u: "uniqueJoinCode rnd k cs = uniqueJoinCode rnd (k + 6) cs"
      using False by (subst uniqueJoinCode.simps) simp
    have e: "k + 6 + 6 * j = k + 6 * Suc j" for j by simp
    have "\<forall>j<Suc m. existingJoinCode cs (generateJoinCode rnd (k + 6 * j)) \<noteq> []"
    proof (intro allI impI)
      fix j assume "j < Suc m"
      show "existingJoinCode cs (generateJoinCode rnd (k + 6 * j)) \<noteq> []"
      proof (cases j)
        case 0
        with False show ?thesis by simp
      next
        case (Suc j')
        with \<open>j < Suc m\<close> have "j' < m" by simp
        with m(4) have "existingJoinCode cs (generateJoinCode rnd (k + 6 + 6 * j')) \<noteq> []" by blast
        then show ?thesis by (metis e Suc)
      qed
    qed
    with m u e[of m] show ?thesis by (intro exI[of _ "Suc m"]) simp
  qed
qed

lemma uniqueJoinCode_Some_free:
  assumes "uniqueJoinCode rnd k cs = Some code"
  shows "\<exists>n. code = generateJoinCode rnd (k + 6 * n) \<and> existingJoinCode cs code = []"
proof (rule uniqueJoinCode.raw_induct
    [where P = "\<lambda>r k c y. \<exists>n. y = generateJoinCode r (k + 6 * n) \<and> existingJoinCode c y = []"
       and rnd = rnd and k = k and cs = cs and y = code])
  fix f r k' c y
  assume IH: "\<And>r k c y. f r k c = Some y \<Longrightarrow>
                \<exists>n. y = generateJoinCode r (k + 6 * n) \<and> existingJoinCode c y = []"
    and eq: "(let code = generateJoinCode r k'
              in if existingJoinCode c code \<noteq> [] then f r (k' + 6) c else Some code) = Some y"
  show "\<exists>n. y = generateJoinCode r (k' + 6 * n) \<and> existingJoinCode c y = []"
  proof (cases "existingJoinCode c (generateJoinCode r k') = []")
    case True
    with eq have "y = generateJoinCode r k'" by (simp add: Let_def)
    with True show ?thesis by (intro exI[of _ 0]) simp
  next
    case False
    with eq have "f r (k' + 6) c = Some y" by (simp add: Let_def)
    from IH[OF this] obtain n where "y = generateJoinCode r (k' + 6 + 6 * n)"
      "existingJoinCode c y = []" by blast
    then show ?thesis by (intro exI[of _ "Suc n"]) (simp add: algebra_simps)
  qed
next
  show "uniqueJoinCode rnd k cs = Some code" by (rule assms)
qed

lemma uniqueJoinCode_never:
  assumes "\<forall>n. existingJoinCode cs (generateJoinCode rnd (k + 6 * n)) \<noteq> []"
  shows "uniqueJoinCode rnd k cs = None"
proof (cases "uniqueJoinCode rnd k cs")
  case None
  then show ?thesis .
next
  case (Some code)
  from uniqueJoinCode_Some_free[OF this] assms show ?thesis by blast
qed

lemma exampleRandom_codes:
  "generateJoinCode exampleRandom 0 = ''AAAAAA''"
  "generateJoinCode exampleRandom 6 = ''SSSSSS''"
  by (simp_all add: generateJoinCode_def exampleRandom_def charAt_def chars_def numeral_eq_Suc)

text \<open>
  Claim C8. Join-code generation always returns a 6-character string whose characters all
  come from the fixed alphabet (the draws of \<^verbatim>\<open>Math.random()\<close> lie in \<open>[0, 1)\<close>). On
  collision the loop retries: whenever some attempt yields a code that no course carries,
  the loop returns, its result is the first such attempt, every earlier attempt collided,
  and the code is carried by no existing course, active or not. When every attempt
  collides the loop never returns.
\<close>

theorem join_code_generation:
  assumes "\<forall>i. 0 \<le> rnd i \<and> rnd i < 1"
  shows "length (generateJoinCode rnd k) = 6 \<and> set (generateJoinCode rnd k) \<subseteq> set chars
    \<and> (existingJoinCode cs (generateJoinCode rnd (k + 6 * n)) = [] \<longrightarrow>
         (\<exists>m code. uniqueJoinCode rnd k cs = Some code
            \<and> code = generateJoinCode rnd (k + 6 * m)
            \<and> (\<forall>j<m. existingJoinCode cs (generateJoinCode rnd (k + 6 * j)) \<noteq> [])
            \<and> length code = 6 \<and> set code \<subseteq> set chars
            \<and> (\<forall>c \<in> set cs. joinCode c \<noteq> Some code)))
    \<and> ((\<forall>j. existingJoinCode cs (generateJoinCode rnd (k + 6 * j)) \<noteq> []) \<longrightarrow>
         uniqueJoinCode rnd k cs = None)"
proof (intro conjI impI)
  show "length (generateJoinCode rnd k) = 6" by (rule generateJoinCode_props(1)[OF assms])
  show "set (generateJoinCode rnd k) \<subseteq> set chars" by (rule generateJoinCode_props(2)[OF assms])
next
  assume "existingJoinCode cs (generateJoinCode rnd (k + 6 * n)) = []"
  from uniqueJoinCode_returns[OF this] obtain m where
    m: "uniqueJoinCode rnd k cs = Some (generateJoinCode rnd (k + 6 * m))"
      "existingJoinCode cs (generateJoinCode rnd (k + 6 * m)) = []"
      "\<forall>j<m. existingJoinCode cs (generateJoinCode rnd (k + 6 * j)) \<noteq> []"
    by blast
  from m(2) have "\<forall>c \<in> set cs. joinCode c \<noteq> Some (generateJoinCode rnd (k + 6 * m))"
    by (simp add: existingJoinCode_empty_iff)
  with m generateJoinCode_props[OF assms, of "k + 6 * m"]
  show "\<exists>m code. uniqueJoinCode rnd k cs = Some code
            \<and> code = generateJoinCode rnd (k + 6 * m)
            \<and> (\<forall>j<m. existingJoinCode cs (generateJoinCode rnd (k + 6 * j)) \<noteq> [])
            \<and> length code = 6 \<and> set code \<subseteq> set chars
            \<and> (\<forall>c \<in> set cs. joinCode c \<noteq> Some code)"
    by blast
next
  assume "\<forall>j. existingJoinCode cs (generateJoinCode rnd (k + 6 * j)) \<noteq> []"
  then show "uniqueJoinCode rnd k cs = None" by (rule uniqueJoinCode_never)
qed

theorem join_code_generation_witness:
  "uniqueJoinCode exampleRandom 0 [exampleCourse] = Some ''SSSSSS''"
proof -
  have r: "\<forall>i. 0 \<le> exampleRandom i \<and> exampleRandom i < 1"
    by (simp add: exampleRandom_def)
  have c0: "existingJoinCode [exampleCourse] (generateJoinCode exampleRandom (0 + 6 * 0)) \<noteq> []"
    by (simp add: exampleRandom_codes existingJoinCode_def exampleCourse_def)
  have c1: "existingJoinCode [exampleCourse] (generateJoinCode exampleRandom (0 + 6 * 1)) = []"
    by (simp add: exampleRandom_codes existingJoinCode_def exampleCourse_def)
  from join_code_generation[OF r, of 0 "[exampleCourse]" 1] c1
  obtain m where m: "uniqueJoinCode exampleRandom 0 [exampleCourse]
                       = Some (generateJoinCode exampleRandom (0 + 6 * m))"
    "\<forall>j<m. existingJoinCode [exampleCourse] (generateJoinCode exampleRandom (0 + 6 * j)) \<noteq> []"
    "existingJoinCode [exampleCourse] (generateJoinCode exampleRandom (0 + 6 * m)) = []"
    by (auto simp add: existingJoinCode_empty_iff)
  from m(2) c1 have "\<not> 1 < m" by blast
  moreover from m(3) c0 have "m \<noteq> 0" by metis
  ultimately have "m = 1" by simp
  with m(1) show ?thesis by (simp add: exampleRandom_codes)
qed

section \<open>Manual attendance is a reconciliation\<close>

subsection \<open>The present set\<close>

lemma fold_set_add:
  "set (fold set_add xs acc) = set acc \<union> set xs"
  "distinct acc \<Longrightarrow> distinct (fold set_add xs acc)"
  by (induction xs arbitrary: acc) (auto simp add: set_add_def)

lemma new_Set_props: "set (new_Set xs) = set xs" "distinct (new_Set xs)"
  by (simp_all add: new_Set_def fold_set_add)

lemma map_filter_snd:
  "map (\<lambda>(i, a). f a) (filter (\<lambda>(i, a). Q a) xs) = map f (filter Q (map snd xs))"
  by (induction xs) auto

lemma currentPresentIds_eq:
  "currentPresentIds (currentSnapshot d sid)
     = new_Set (map a_studentId (filter (presentIn sid) (attendance d)))"
proof -
  have "filter (\<lambda>(i, a). status a = Present) (filter (\<lambda>(i, a). a_sessionId a = sid) xs)
        = filter (\<lambda>(i, a). presentIn sid a) xs" for xs :: "(nat \<times> attendance_doc) list"
    by (induction xs) (auto simp add: presentIn_def)
  then show ?thesis
    by (simp add: currentPresentIds_def currentSnapshot_def map_filter_snd)
qed

lemma set_currentPresentIds:
  "set (currentPresentIds (currentSnapshot d sid))
     = a_studentId ` {a \<in> set (attendance d). presentIn sid a}"
  by (simp add: currentPresentIds_eq new_Set_props)

lemma idx_unique:
  assumes "distinct (map f (filter Q xs))" and "i < length xs" and "j < length xs"
    and "Q (xs ! i)" and "Q (xs ! j)" and "f (xs ! i) = f (xs ! j)"
  shows "i = j"
  using assms
proof (induction xs arbitrary: i j)
  case Nil
  then show ?case by simp
next
  case (Cons x xs)
  show ?case
  proof (cases i)
    case i0: 0
    show ?thesis
    proof (cases j)
      case 0
      with i0 show ?thesis by simp
    next
      case (Suc j')
      with Cons.prems i0 have "f x \<notin> f ` {y \<in> set xs. Q y}" "Q (xs ! j')" "f x = f (xs ! j')" "j' < length xs"
        by auto
      then show ?thesis by (metis (mono_tags, lifting) image_eqI mem_Collect_eq nth_mem)
    qed
  next
    case (Suc i')
    show ?thesis
    proof (cases j)
      case 0
      with Cons.prems Suc have "f x \<notin> f ` {y \<in> set xs. Q y}" "Q (xs ! i')" "f x = f (xs ! i')" "i' < length xs"
        by auto
      then show ?thesis by (metis (mono_tags, lifting) image_eqI mem_Collect_eq nth_mem)
    next
      case j: (Suc j')
      from Cons.prems(1) have "distinct (map f (filter Q xs))" by (simp split: if_splits)
      from Cons.IH[OF this, of i' j'] Cons.prems Suc j show ?thesis by simp
    qed
  qed
qed

lemma fold_addManual:
  "fold (addManual now sid s) xs d
     = d\<lparr>attendance := attendance d @ map (manualDoc now sid s) xs\<rparr>"
  by (induction xs arbitrary: d) (simp_all add: addManual_def)

subsection \<open>The removals\<close>

lemma find_snapshot_Some:
  assumes "find (\<lambda>(i, a). a_studentId a = r \<and> status a = Present)
             (filter (\<lambda>(i, a). a_sessionId a = sid) (enumerate 0 A)) = Some (i0, a0)"
  shows "i0 < length A \<and> a0 = A ! i0 \<and> presentIn sid a0 \<and> a_studentId a0 = r"
proof -
  let ?snap = "filter (\<lambda>(i, a). a_sessionId a = sid) (enumerate 0 A)"
  from assms obtain k where k: "k < length ?snap" "?snap ! k = (i0, a0)"
    "a_studentId a0 = r \<and> status a0 = Present"
    by (auto simp add: find_Some_iff)
  then have "(i0, a0) \<in> set ?snap" by (metis nth_mem)
  then have "(i0, a0) \<in> set (enumerate 0 A)" "a_sessionId a0 = sid" by auto
  then show ?thesis using k(3) by (auto simp add: in_set_enumerate_eq presentIn_def)
qed

lemma find_snapshot_None:
  assumes "find (\<lambda>(i, a). a_studentId a = r \<and> status a = Present)
             (filter (\<lambda>(i, a). a_sessionId a = sid) (enumerate 0 A)) = None"
    and "i < length A" and "presentIn sid (A ! i)"
  shows "a_studentId (A ! i) \<noteq> r"
proof
  assume e: "a_studentId (A ! i) = r"
  have "(i, A ! i) \<in> set (enumerate 0 A)" using assms(2) by (simp add: in_set_enumerate_eq)
  then have "(i, A ! i) \<in> set (filter (\<lambda>(i, a). a_sessionId a = sid) (enumerate 0 A))"
    using assms(3) by (simp add: presentIn_def)
  with assms(1) e assms(3) show False
    by (auto simp add: find_None_iff presentIn_def)
qed

lemma fold_markAbsent:
  assumes inv: "distinct (map a_studentId (filter (presentIn sid) A))"
    and len: "length A \<le> length (attendance dd)"
    and rs: "distinct rs"
  shows "\<exists>L. fold (markAbsent now (filter (\<lambda>(i, a). a_sessionId a = sid) (enumerate 0 A))) rs dd
               = dd\<lparr>attendance := L\<rparr>
           \<and> length L = length (attendance dd)
           \<and> (\<forall>i < length L. L ! i =
                (if i < length A \<and> presentIn sid (A ! i) \<and> a_studentId (A ! i) \<in> set rs
                 then markAbsentDoc now (attendance dd ! i) else attendance dd ! i))"
  using len rs
proof (induction rs arbitrary: dd)
  case Nil
  show ?case by (intro exI[of _ "attendance dd"]) simp
next
  case (Cons r rs)
  let ?snap = "filter (\<lambda>(i, a). a_sessionId a = sid) (enumerate 0 A)"
  let ?dd' = "markAbsent now ?snap r dd"
  from Cons.prems have drs: "distinct rs" and rn: "r \<notin> set rs" by simp_all
  show ?case
  proof (cases "find (\<lambda>(i, a). a_studentId a = r \<and> status a = Present) ?snap")
    case None
    then have dd': "?dd' = dd" by (simp add: markAbsent_def)
    from Cons.IH[OF Cons.prems(1) drs] obtain L where L:
      "fold (markAbsent now ?snap) rs dd = dd\<lparr>attendance := L\<rparr>"
      "length L = length (attendance dd)"
      "\<forall>i < length L. L ! i =
                (if i < length A \<and> presentIn sid (A ! i) \<and> a_studentId (A ! i) \<in> set rs
                 then markAbsentDoc now (attendance dd ! i) else attendance dd ! i)"
      by blast
    have "\<forall>i < length L. L ! i =
                (if i < length A \<and> presentIn sid (A ! i) \<and> a_studentId (A ! i) \<in> set (r # rs)
                 then markAbsentDoc now (attendance dd ! i) else attendance dd ! i)"
      using L(3) find_snapshot_None[OF None] by auto
    with L(1,2) dd' show ?thesis by (intro exI[of _ L]) simp
  next
    case (Some ia)
    obtain i0 a0 where ia: "ia = (i0, a0)" by (cases ia)
    from find_snapshot_Some[OF Some[unfolded ia]]
    have f: "i0 < length A" "presentIn sid (A ! i0)" "a_studentId (A ! i0) = r" by auto
    have dd': "?dd' = dd\<lparr>attendance := (attendance dd)[i0 := markAbsentDoc now (attendance dd ! i0)]\<rparr>"
      using Some ia by (simp add: markAbsent_def)
    have len': "length A \<le> length (attendance ?dd')" using Cons.prems(1) dd' by simp
    from Cons.IH[OF len' drs] obtain L where L:
      "fold (markAbsent now ?snap) rs ?dd' = ?dd'\<lparr>attendance := L\<rparr>"
      "length L = length (attendance ?dd')"
      "\<forall>i < length L. L ! i =
                (if i < length A \<and> presentIn sid (A ! i) \<and> a_studentId (A ! i) \<in> set rs
                 then markAbsentDoc now (attendance ?dd' ! i) else attendance ?dd' ! i)"
      by blast
    have lenL: "length L = length (attendance dd)" using L(2) dd' by simp
    have "L ! i = (if i < length A \<and> presentIn sid (A ! i) \<and> a_studentId (A ! i) \<in> set (r # rs)
                 then markAbsentDoc now (attendance dd ! i) else attendance dd ! i)"
      if i: "i < length L" for i
    proof (cases "i = i0")
      case True
      have "a_studentId (A ! i0) \<notin> set rs" using f rn by simp
      with L(3) i True have "L ! i0 = attendance ?dd' ! i0" by simp
      also have "\<dots> = markAbsentDoc now (attendance dd ! i0)"
        using dd' f(1) Cons.prems(1) by simp
      finally show ?thesis using True f by simp
    next
      case False
      then have same: "attendance ?dd' ! i = attendance dd ! i" using dd' by simp
      have "\<not> (i < length A \<and> presentIn sid (A ! i) \<and> a_studentId (A ! i) = r)"
      proof
        assume "i < length A \<and> presentIn sid (A ! i) \<and> a_studentId (A ! i) = r"
        with idx_unique[OF inv, of i i0] f have "i = i0" by simp
        with False show False by simp
      qed
      with L(3) i same show ?thesis by auto
    qed
    then have "\<forall>i < length L. L ! i =
                (if i < length A \<and> presentIn sid (A ! i) \<and> a_studentId (A ! i) \<in> set (r # rs)
                 then markAbsentDoc now (attendance dd ! i) else attendance dd ! i)"
      by blast
    moreover have "fold (markAbsent now ?snap) (r # rs) dd = dd\<lparr>attendance := L\<rparr>"
      using L(1) dd' by simp
    ultimately show ?thesis using lenL by (intro exI[of _ L]) simp
  qed
qed

subsection \<open>The whole route\<close>

lemma applyManualAttendance_authorized:
  fixes ids :: "string list"
  assumes s: "sessions d sid = Some s" and own: "s_facultyId s = caller"
    and inv: "atMostOnePresent d sid"
  defines "cur \<equiv> currentPresentIds (currentSnapshot d sid)"
  defines "toAdd \<equiv> filter (\<lambda>i. i \<notin> set cur) ids"
  defines "toRemove \<equiv> filter (\<lambda>i. i \<notin> set ids) cur"
  shows "applyManualAttendance now caller sid (Some ids) d =
          (Inr (length toAdd, length toRemove),
           d\<lparr>attendance := map (reconciled now sid ids) (attendance d) @ map (manualDoc now sid s) toAdd,
             sessions := (sessions d)(sid \<mapsto>
                s\<lparr>presentCount := presentCount s + (int (length toAdd) - int (length toRemove))\<rparr>)\<rparr>)"
proof -
  let ?A = "attendance d"
  let ?new = "map (manualDoc now sid s) toAdd"
  let ?d1 = "d\<lparr>attendance := ?A @ ?new\<rparr>"
  let ?snap = "filter (\<lambda>(i, a). a_sessionId a = sid) (enumerate 0 ?A)"
  have snap: "currentSnapshot d sid = ?snap" by (simp add: currentSnapshot_def)
  have dcur: "distinct cur" by (simp add: cur_def currentPresentIds_eq new_Set_props)
  have scur: "set cur = a_studentId ` {a \<in> set ?A. presentIn sid a}"
    by (simp add: cur_def set_currentPresentIds)
  have tr: "filter (\<lambda>i. i \<notin> set (new_Set ids)) cur = toRemove"
    by (simp add: toRemove_def new_Set_props)
  have dtr: "distinct toRemove" using dcur by (simp add: toRemove_def)
  have inv': "distinct (map a_studentId (filter (presentIn sid) ?A))"
    using inv by (simp add: atMostOnePresent_def)
  have len: "length ?A \<le> length (attendance ?d1)" by simp
  from fold_markAbsent[OF inv' len dtr, of now] obtain L where L:
    "fold (markAbsent now ?snap) toRemove ?d1 = ?d1\<lparr>attendance := L\<rparr>"
    "length L = length (attendance ?d1)"
    "\<forall>i < length L. L ! i =
         (if i < length ?A \<and> presentIn sid (?A ! i) \<and> a_studentId (?A ! i) \<in> set toRemove
          then markAbsentDoc now (attendance ?d1 ! i) else attendance ?d1 ! i)"
    by blast
  have Leq: "L = map (reconciled now sid ids) ?A @ ?new"
  proof (rule nth_equalityI)
    show "length L = length (map (reconciled now sid ids) ?A @ ?new)" using L(2) by simp
  next
    fix i assume i: "i < length L"
    show "L ! i = (map (reconciled now sid ids) ?A @ ?new) ! i"
    proof (cases "i < length ?A")
      case True
      then have mem: "?A ! i \<in> set ?A" by simp
      have "presentIn sid (?A ! i) \<Longrightarrow> a_studentId (?A ! i) \<in> set cur"
        using mem scur by blast
      then have c: "presentIn sid (?A ! i) \<and> a_studentId (?A ! i) \<in> set toRemove
            \<longleftrightarrow> presentIn sid (?A ! i) \<and> a_studentId (?A ! i) \<notin> set ids"
        by (auto simp add: toRemove_def)
      have "L ! i = (if presentIn sid (?A ! i) \<and> a_studentId (?A ! i) \<in> set toRemove
          then markAbsentDoc now (?A ! i) else ?A ! i)"
        using L(3) i True by (simp add: nth_append)
      also have "\<dots> = reconciled now sid ids (?A ! i)"
        using c by (simp add: reconciled_def)
      finally show ?thesis using True by (simp add: nth_append)
    next
      case False
      with L(3) i show ?thesis by (simp add: nth_append)
    qed
  qed
  have d1: "fold (addManual now sid s) toAdd d = ?d1" by (rule fold_addManual)
  have d2: "fold (markAbsent now (currentSnapshot d sid)) toRemove ?d1
              = d\<lparr>attendance := map (reconciled now sid ids) ?A @ ?new\<rparr>"
    using L(1) Leq snap by simp
  have triv: "(sessions d)(sid \<mapsto> s\<lparr>presentCount := presentCount s\<rparr>) = sessions d"
    using s by (simp add: map_upd_triv)
  show ?thesis
  proof (cases "int (length toAdd) - int (length toRemove) = 0")
    case True
    then show ?thesis
      using s own d1 d2 tr triv
      by (simp add: applyManualAttendance_def Let_def cur_def[symmetric] toAdd_def[symmetric])
  next
    case False
    then show ?thesis
      using s own d1 d2 tr
      by (simp add: applyManualAttendance_def Let_def cur_def[symmetric] toAdd_def[symmetric]
          updateSession_def)
  qed
qed

lemma reconciled_fields:
  "a_studentId (reconciled now sid ids a) = a_studentId a"
  "presentIn sid (reconciled now sid ids a) \<longleftrightarrow> presentIn sid a \<and> a_studentId a \<in> set ids"
  by (auto simp add: reconciled_def markAbsentDoc_def presentIn_def)

lemma manualDoc_fields:
  "a_studentId (manualDoc now sid s x) = x" "presentIn sid (manualDoc now sid s x)"
  by (simp_all add: manualDoc_def presentIn_def)

lemma present_after_reconcile:
  "map a_studentId (filter (presentIn sid) (map (reconciled now sid ids) A))
     = map a_studentId (filter (\<lambda>a. presentIn sid a \<and> a_studentId a \<in> set ids) A)"
  by (induction A) (simp_all add: reconciled_fields)

lemma present_after_add:
  "map a_studentId (filter (presentIn sid) (map (manualDoc now sid s) xs)) = xs"
  by (induction xs) (simp_all add: manualDoc_fields)

lemma present_ids_list:
  "a_studentId ` {a \<in> set L. presentIn sid a} = set (map a_studentId (filter (presentIn sid) L))"
  by auto

lemma applyManualAttendance_settled:
  assumes s: "sessions d sid = Some s" and own: "s_facultyId s = caller"
    and eq: "a_studentId ` {a \<in> set (attendance d). presentIn sid a} = set ids"
  shows "applyManualAttendance now caller sid (Some ids) d = (Inr (0, 0), d)"
proof -
  have c: "set (currentPresentIds (currentSnapshot d sid)) = set ids"
    using eq by (simp add: set_currentPresentIds)
  have 1: "filter (\<lambda>i. i \<notin> set (currentPresentIds (currentSnapshot d sid))) ids = []"
    using c by (simp add: filter_empty_conv)
  have 2: "filter (\<lambda>i. i \<notin> set (new_Set ids)) (currentPresentIds (currentSnapshot d sid)) = []"
    using c by (simp add: filter_empty_conv new_Set_props)
  show ?thesis using s own 1 2 by (simp add: applyManualAttendance_def Let_def)
qed

text \<open>
  What the route does for a request that names no student twice, on a state that holds at
  most one \<open>present\<close> record per student of the session: it appends one \<open>present\<close> record
  for each requested student not currently present, patches to \<open>absent\<close> exactly the
  \<open>present\<close> records of the students not requested, leaves every other record as it was,
  adjusts the present-count by additions minus removals, keeps the state at one \<open>present\<close>
  record per student, and a second call with the same request changes nothing.
\<close>

lemma applyManualAttendance_distinct_request:
  fixes ids :: "string list"
  assumes "sessions d sid = Some s" and "s_facultyId s = caller"
    and "atMostOnePresent d sid" and "distinct ids"
  shows "let cur = a_studentId ` {a \<in> set (attendance d). presentIn sid a};
             toAdd = filter (\<lambda>i. i \<notin> cur) ids;
             removed = card (cur - set ids);
             r = applyManualAttendance now caller sid (Some ids) d
         in fst r = Inr (length toAdd, removed)
          \<and> attendance (snd r)
              = map (reconciled now sid ids) (attendance d) @ map (manualDoc now sid s) toAdd
          \<and> sessions (snd r)
              = (sessions d)(sid \<mapsto> s\<lparr>presentCount := presentCount s + (int (length toAdd) - int removed)\<rparr>)
          \<and> (snd r)\<lparr>attendance := attendance d, sessions := sessions d\<rparr> = d
          \<and> atMostOnePresent (snd r) sid
          \<and> applyManualAttendance now' caller sid (Some ids) (snd r) = (Inr (0, 0), snd r)"
proof -
  define curl where "curl = currentPresentIds (currentSnapshot d sid)"
  define cur where "cur = a_studentId ` {a \<in> set (attendance d). presentIn sid a}"
  define toAdd where "toAdd = filter (\<lambda>i. i \<notin> cur) ids"
  define toRemove where "toRemove = filter (\<lambda>i. i \<notin> set ids) curl"
  define d' where "d' = d\<lparr>attendance := map (reconciled now sid ids) (attendance d) @ map (manualDoc now sid s) toAdd,
             sessions := (sessions d)(sid \<mapsto>
                s\<lparr>presentCount := presentCount s + (int (length toAdd) - int (length toRemove))\<rparr>)\<rparr>"
  have scur: "set curl = cur" by (simp add: curl_def cur_def set_currentPresentIds)
  have dcur: "distinct curl" by (simp add: curl_def currentPresentIds_eq new_Set_props)
  have r: "applyManualAttendance now caller sid (Some ids) d = (Inr (length toAdd, length toRemove), d')"
    using applyManualAttendance_authorized[OF assms(1-3), of now ids] scur
    by (simp add: d'_def toAdd_def toRemove_def curl_def)
  have "distinct toRemove" using dcur by (simp add: toRemove_def)
  then have "length toRemove = card (set toRemove)" by (rule distinct_card[symmetric])
  also have "set toRemove = cur - set ids" using scur by (auto simp add: toRemove_def)
  finally have rem: "length toRemove = card (cur - set ids)" .
  have s': "sessions d' sid = Some (s\<lparr>presentCount := presentCount s + (int (length toAdd) - int (length toRemove))\<rparr>)"
    by (simp add: d'_def)
  have "a_studentId ` {a \<in> set (attendance d'). presentIn sid a}
          = set (map a_studentId (filter (\<lambda>a. presentIn sid a \<and> a_studentId a \<in> set ids) (attendance d)))
            \<union> set toAdd"
    unfolding present_ids_list
    by (simp add: d'_def present_after_reconcile present_after_add)
  also have "\<dots> = (cur \<inter> set ids) \<union> set toAdd"
    by (auto simp add: cur_def)
  also have "\<dots> = set ids" by (auto simp add: toAdd_def)
  finally have eq: "a_studentId ` {a \<in> set (attendance d'). presentIn sid a} = set ids" .
  have again: "applyManualAttendance now' caller sid (Some ids) d' = (Inr (0, 0), d')"
    by (rule applyManualAttendance_settled[OF s' _ eq]) (simp add: assms(2))
  have rest: "d'\<lparr>attendance := attendance d, sessions := sessions d\<rparr> = d"
    by (simp add: d'_def)
  have pres: "map a_studentId (filter (presentIn sid) (attendance d'))
          = map a_studentId (filter (\<lambda>a. a_studentId a \<in> set ids) (filter (presentIn sid) (attendance d)))
            @ toAdd"
    by (simp add: d'_def present_after_reconcile present_after_add)
  have k1: "distinct (map a_studentId (filter (\<lambda>a. a_studentId a \<in> set ids)
                        (filter (presentIn sid) (attendance d))))"
    using assms(3) unfolding atMostOnePresent_def by (rule distinct_map_filter)
  have k2: "distinct toAdd" using assms(4) by (simp add: toAdd_def)
  have k3: "set (map a_studentId (filter (\<lambda>a. a_studentId a \<in> set ids)
                        (filter (presentIn sid) (attendance d)))) \<subseteq> cur"
    by (auto simp add: cur_def)
  have k4: "set toAdd \<inter> cur = {}" by (auto simp add: toAdd_def)
  have keep: "atMostOnePresent d' sid"
    unfolding atMostOnePresent_def pres using k1 k2 k3 k4 by (simp only: distinct_append) blast
  show ?thesis
    unfolding Let_def cur_def[symmetric] toAdd_def[symmetric]
    using r rem again rest keep by (simp add: d'_def)
qed

text \<open>
  Claim C6 says that the route appends \<open>present\<close> records exactly for the requested
  students not currently present, and that a repeated call reports zero added and zero
  removed. The additions are filtered from the request array as sent, not from the set
  built from it: on the empty session a request naming \<open>u1\<close> twice adds two \<open>present\<close>
  records for \<open>u1\<close> and raises the present-count by two. Each removal patches one record
  only, so a call with the empty list then reports one removal, and the same call
  repeated reports one removal again.
\<close>

theorem manual_attendance_duplicate_ids:
  "atMostOnePresent (exampleDb []) exampleSid
   \<and> fst (applyManualAttendance 1100 ''f1'' exampleSid (Some [''u1'', ''u1'']) (exampleDb []))
       = Inr (2, 0)
   \<and> map (\<lambda>a. (a_studentId a, status a))
        (attendance (snd (applyManualAttendance 1100 ''f1'' exampleSid (Some [''u1'', ''u1''])
                            (exampleDb []))))
       = [(''u1'', Present), (''u1'', Present)]
   \<and> map_option presentCount
        (sessions (snd (applyManualAttendance 1100 ''f1'' exampleSid (Some [''u1'', ''u1''])
                          (exampleDb []))) exampleSid)
       = Some 2
   \<and> \<not> atMostOnePresent
          (snd (applyManualAttendance 1100 ''f1'' exampleSid (Some [''u1'', ''u1'']) (exampleDb [])))
          exampleSid
   \<and> fst (applyManualAttendance 1200 ''f1'' exampleSid (Some [])
         (snd (applyManualAttendance 1100 ''f1'' exampleSid (Some [''u1'', ''u1'']) (exampleDb []))))
       = Inr (0, 1)
   \<and> fst (applyManualAttendance 1300 ''f1'' exampleSid (Some [])
         (snd (applyManualAttendance 1200 ''f1'' exampleSid (Some [])
           (snd (applyManualAttendance 1100 ''f1'' exampleSid (Some [''u1'', ''u1'']) (exampleDb []))))))
       = Inr (0, 1)"
  by (simp add: applyManualAttendance_def Let_def currentSnapshot_def currentPresentIds_def
      new_Set_def set_add_def addManual_def markAbsent_def manualDoc_def markAbsentDoc_def
      updateSession_def exampleDb_def exampleSession_def exampleSid_def
      atMostOnePresent_def presentIn_def)

end
